theory Spec2Isabelle
  imports Complex_Main "HOL-Library.Product_Lexorder" "HOL-Library.Multiset"
begin

section \<open>Python primitives used by create\_phylowgs\_inputs.py\<close>

text \<open>
  Python floats are modelled as HOL reals: the rounding error of IEEE arithmetic, NaN as a
  float value and infinities are outside the model (a missing matrix cell, NaN in the source,
  is \<open>None\<close>). Python integers are unbounded and are \<open>int\<close>.
\<close>

datatype exn =
    ReadCountsUnavailableError
  | AssertionError
  | KeyError
  | IndexError
  | ValueError
  | ZeroDivisionError
  | AttributeError
  | TypeError
  | IOError
  | Exception string

text \<open>\<open>int(x)\<close> on a float truncates toward zero.\<close>

definition py_int :: "real \<Rightarrow> int" where
  "py_int x = (if 0 \<le> x then \<lfloor>x\<rfloor> else \<lceil>x\<rceil>)"

text \<open>\<open>round(x)\<close> of Python 2 rounds half away from zero.\<close>

definition py_round :: "real \<Rightarrow> real" where
  "py_round x = (if 0 \<le> x then of_int \<lfloor>x + 1 / 2\<rfloor> else of_int \<lceil>x - 1 / 2\<rceil>)"

section \<open>CNV regions\<close>

text \<open>
  A row of the CNV file as \<open>CnvParser.parse\<close> stores it: a dictionary with the keys
  start, end, major\_cn, minor\_cn and cellular\_prevalence.
\<close>

record cn_region =
  region_start :: int
  region_end :: int
  major_cn :: int
  minor_cn :: int
  cellular_prevalence :: real

text \<open>
  The dictionary chromosome \<open>\<rightarrow>\<close> regions is an association list: the source iterates it
  with \<open>items()\<close>, and the list order stands for the order of that iteration.
\<close>

type_synonym cn_regions = "(string \<times> cn_region list) list"

text \<open>\<open>find_cellularity\<close>: the running maximum starts at 0.\<close>

definition find_cellularity :: "cn_regions \<Rightarrow> real" where
  "find_cellularity cnvs =
     fold (\<lambda>cnr m. if cellular_prevalence cnr > m then cellular_prevalence cnr else m)
       (concat (map snd cnvs)) 0"

section \<open>CnvFormatter\<close>

text \<open>
  The estimated read depth is either the integer default 50 or a numpy float
  (\<open>VariantAndCnvGroup._estimate_read_depth\<close>); Python 2 divides two integers by floor
  division.
\<close>

datatype depth = IntDepth int | FloatDepth real

record cnv_formatter =
  cnv_confidence :: real
  cellularity :: real
  read_depth :: depth
  read_length :: int

definition depth_value :: "depth \<Rightarrow> real" where
  "depth_value d = (case d of IntDepth k \<Rightarrow> of_int k | FloatDepth x \<Rightarrow> x)"

definition max_reads :: "cnv_formatter \<Rightarrow> real" where
  "max_reads fm = 1000000 * depth_value (read_depth fm)"

definition calc_ref_reads :: "real \<Rightarrow> int \<Rightarrow> int" where
  "calc_ref_reads cellular_prev total_reads =
     (let vaf = cellular_prev / 2
      in py_int ((1 - vaf) * of_int total_reads))"

text \<open>
  \<open>_calc_total_reads\<close>. A division by zero (a read length of 0, or a denominator
  \<open>1 + delta_cn * P / 2\<close> of 0) is reported as \<open>ZeroDivisionError\<close>; with a numpy
  float depth the source would go on with an infinity or NaN, which the real numbers do not
  have.
\<close>

definition calc_total_reads :: "cnv_formatter \<Rightarrow> real \<Rightarrow> int \<Rightarrow> int \<Rightarrow> int \<Rightarrow> exn + int" where
  "calc_total_reads fm cellular_prev locus_start locus_end new_cn =
     (let delta_cn = (if new_cn = 2 then 1 else of_int (new_cn - 2));
          no_net_change = (new_cn = 2);
          region_length = locus_end - locus_start + 1
      in if read_length fm = 0 then Inl ZeroDivisionError
         else
           let fn = (case read_depth fm of
                       IntDepth k \<Rightarrow> of_int ((k * region_length) div read_length fm)
                     | FloatDepth x \<Rightarrow> (x * of_int region_length) / of_int (read_length fm));
               P = (if cellular_prev = 1 then 999 / 1000 else cellular_prev)
           in if 1 + (delta_cn * P) / 2 = 0 then Inl ZeroDivisionError
              else
                let d0 = (delta_cn ^ 2 / 4) * (fn * P * (2 - P)) / (1 + (delta_cn * P) / 2);
                    d = (if no_net_change then d0 * (of_int (read_length fm) / 1000) else d0)
                in Inr (py_int (py_round (min d (max_reads fm)))))"

text \<open>\<open>str\<close> of an integer, in decimal.\<close>

definition digit_char :: "nat \<Rightarrow> char" where
  "digit_char d = char_of (of_char CHR ''0'' + d)"

fun str_nat :: "nat \<Rightarrow> string" where
  "str_nat n = (if n < 10 then [digit_char n] else str_nat (n div 10) @ [digit_char (n mod 10)])"

declare str_nat.simps [simp del]

definition str_int :: "int \<Rightarrow> string" where
  "str_int i = (if i < 0 then CHR ''-'' # str_nat (nat (- i)) else str_nat (nat i))"

text \<open>\<open>s.lower()\<close> on an ASCII string.\<close>

definition lower_char :: "char \<Rightarrow> char" where
  "lower_char c =
     (if of_char CHR ''A'' \<le> (of_char c :: nat) \<and> (of_char c :: nat) \<le> of_char CHR ''Z''
      then char_of ((of_char c :: nat) + 32) else c)"

definition lower :: "string \<Rightarrow> string" where
  "lower s = map lower_char s"

text \<open>
  A formatted variant, the dictionary that \<open>VariantFormatter.format_variants\<close> yields.
\<close>

record formatted_variant =
  ssm_id :: string
  chrom :: string
  pos :: int
  variant_name :: string
  v_ref_reads :: "int list"
  v_total_reads :: "int list"
  expected_ref_freq :: real
  expected_var_freq :: real

text \<open>
  A formatted CNV, the dictionary that \<open>_format_cnvs\<close> yields: the region's own keys, its
  chromosome, the read counts and the overlapping variants as triples
  (ssm\_id, str(minor\_cn), str(major\_cn)). The key cnv\_id is absent until the merge pass
  sets it.
\<close>

record formatted_cnv = cn_region +
  cnv_chrom :: string
  ref_reads :: int
  total_reads :: int
  overlapping_variants :: "(string \<times> string \<times> string) list"
  cnv_id :: "string option"

definition find_overlapping_variants ::
  "string \<Rightarrow> cn_region \<Rightarrow> formatted_variant list \<Rightarrow> string list" where
  "find_overlapping_variants chr cnv variants =
     map ssm_id
       (filter (\<lambda>v. lower chr = lower (chrom v)
                    \<and> region_start cnv \<le> pos v \<and> pos v \<le> region_end cnv) variants)"

definition format_overlapping_variants ::
  "string list \<Rightarrow> int \<Rightarrow> int \<Rightarrow> (string \<times> string \<times> string) list" where
  "format_overlapping_variants variants maj_cn min_cn =
     map (\<lambda>sid. (sid, str_int min_cn, str_int maj_cn)) variants"

definition format_cnv ::
  "cnv_formatter \<Rightarrow> formatted_variant list \<Rightarrow> string \<Rightarrow> cn_region \<Rightarrow> exn + formatted_cnv" where
  "format_cnv fm variants chr cnv =
     (let overlapping = find_overlapping_variants chr cnv variants
      in case calc_total_reads fm (cellular_prevalence cnv) (region_start cnv) (region_end cnv)
                (major_cn cnv + minor_cn cnv) of
           Inl e \<Rightarrow> Inl e
         | Inr tot \<Rightarrow>
             Inr \<lparr> region_start = region_start cnv,
                   region_end = region_end cnv,
                   major_cn = major_cn cnv,
                   minor_cn = minor_cn cnv,
                   cellular_prevalence = cellular_prevalence cnv,
                   cnv_chrom = chr,
                   ref_reads = calc_ref_reads (cellular_prevalence cnv) tot,
                   total_reads = tot,
                   overlapping_variants =
                     format_overlapping_variants overlapping (major_cn cnv) (minor_cn cnv),
                   cnv_id = None \<rparr>)"

text \<open>Running a list of computations in order; the first exception ends the run.\<close>

fun collect :: "(exn + 'a) list \<Rightarrow> exn + 'a list" where
  "collect [] = Inr []"
| "collect (Inl e # rs) = Inl e"
| "collect (Inr x # rs) = (case collect rs of Inl e \<Rightarrow> Inl e | Inr xs \<Rightarrow> Inr (x # xs))"

definition format_cnvs ::
  "cnv_formatter \<Rightarrow> cn_regions \<Rightarrow> formatted_variant list \<Rightarrow> exn + formatted_cnv list" where
  "format_cnvs fm cnvs variants =
     collect (concat (map (\<lambda>(chr, chrom_cnvs). map (format_cnv fm variants chr) chrom_cnvs) cnvs))"

text \<open>
  \<open>_merge_variants\<close>: the names of cnv1 are collected once, before the loop over the
  variants of cnv2.
\<close>

definition merge_variants ::
  "(string \<times> string \<times> string) list \<Rightarrow> (string \<times> string \<times> string) list
   \<Rightarrow> (string \<times> string \<times> string) list" where
  "merge_variants ov1 ov2 =
     (let cnv1_variant_names = set (map fst ov1)
      in ov1 @ filter (\<lambda>variant. fst variant \<notin> cnv1_variant_names) ov2)"

definition merge_into :: "formatted_cnv \<Rightarrow> formatted_cnv \<Rightarrow> formatted_cnv" where
  "merge_into lst current =
     (let tot = total_reads current + total_reads lst
      in lst \<lparr> total_reads := tot,
               ref_reads := calc_ref_reads (cellular_prevalence lst) tot,
               overlapping_variants :=
                 merge_variants (overlapping_variants lst) (overlapping_variants current) \<rparr>)"

text \<open>
  The loop of \<open>format_and_merge_cnvs\<close>. The list \<open>merged\<close> of the source is never
  empty inside the loop; it is kept as the pair of its front \<open>front\<close> and its last element
  \<open>lst\<close>, which is the only one the loop reads or changes.
\<close>

fun merge_loop ::
  "real \<Rightarrow> formatted_cnv list \<Rightarrow> formatted_cnv \<Rightarrow> nat \<Rightarrow> formatted_cnv list
   \<Rightarrow> formatted_cnv list" where
  "merge_loop c front lst counter [] = front @ [lst]"
| "merge_loop c front lst counter (current # rest) =
     (if cellular_prevalence current = cellular_prevalence lst \<and> cellular_prevalence lst = c
      then merge_loop c front (merge_into lst current) counter rest
      else merge_loop c (front @ [lst])
             (current \<lparr> cnv_id := Some (CHR ''c'' # str_nat counter) \<rparr>) (counter + 1) rest)"

text \<open>
  \<open>format_and_merge_cnvs\<close> up to the end of the merge loop, before the final scaling by
  the CNV confidence. Python's \<open>list.sort\<close> is stable, as \<open>sort_key\<close> is.
\<close>

definition merge_cnvs_unscaled ::
  "cnv_formatter \<Rightarrow> cn_regions \<Rightarrow> formatted_variant list \<Rightarrow> exn + formatted_cnv list" where
  "merge_cnvs_unscaled fm cnvs variants =
     (case format_cnvs fm cnvs variants of
        Inl e \<Rightarrow> Inl e
      | Inr formatted0 \<Rightarrow>
          (case sort_key cellular_prevalence formatted0 of
             [] \<Rightarrow> Inr []
           | first # formatted \<Rightarrow>
               Inr (merge_loop (find_cellularity cnvs) []
                      (first \<lparr> cnv_id := Some ''c0'' \<rparr>) 1 formatted)))"

definition scale_cnv :: "real \<Rightarrow> formatted_cnv \<Rightarrow> formatted_cnv" where
  "scale_cnv conf cnv =
     cnv \<lparr> ref_reads := py_int (py_round (of_int (ref_reads cnv) * conf)),
           total_reads := py_int (py_round (of_int (total_reads cnv) * conf)) \<rparr>"

definition format_and_merge_cnvs ::
  "cnv_formatter \<Rightarrow> cn_regions \<Rightarrow> formatted_variant list \<Rightarrow> exn + formatted_cnv list" where
  "format_and_merge_cnvs fm cnvs variants =
     (case merge_cnvs_unscaled fm cnvs variants of
        Inl e \<Rightarrow> Inl e
      | Inr merged \<Rightarrow> Inr (map (scale_cnv (cnv_confidence fm)) merged))"

section \<open>Well-formed inputs\<close>





section \<open>Example inputs\<close>




section \<open>The merge pass as the specification words it\<close>






section \<open>Variant identities and their sort key\<close>

text \<open>The named tuple \<open>VariantId\<close> of \<open>parse_variants\<close>.\<close>

record variant_id =
  CHROM :: string
  POS :: int

text \<open>
  \<open>int(s)\<close> on a string: surrounding whitespace is dropped, one sign is allowed, and at
  least one decimal digit must follow; anything else raises \<open>ValueError\<close>.
\<close>

definition is_digit :: "char \<Rightarrow> bool" where
  "is_digit c = (of_char CHR ''0'' \<le> (of_char c :: nat) \<and> (of_char c :: nat) \<le> of_char CHR ''9'')"

definition is_space :: "char \<Rightarrow> bool" where
  "is_space c = ((of_char c :: nat) = 32 \<or> (9 \<le> (of_char c :: nat) \<and> (of_char c :: nat) \<le> 13))"

definition strip :: "string \<Rightarrow> string" where
  "strip s = rev (dropWhile is_space (rev (dropWhile is_space s)))"

definition digits_value :: "string \<Rightarrow> nat" where
  "digits_value ds = foldl (\<lambda>acc c. 10 * acc + ((of_char c :: nat) - of_char CHR ''0'')) 0 ds"

definition int_of_digits :: "string \<Rightarrow> exn + int" where
  "int_of_digits ds =
     (if ds \<noteq> [] \<and> list_all is_digit ds then Inr (int (digits_value ds)) else Inl ValueError)"

definition int_of_string :: "string \<Rightarrow> exn + int" where
  "int_of_string s =
     (case strip s of
        [] \<Rightarrow> Inl ValueError
      | c # cs \<Rightarrow>
          if c = CHR ''-'' then (case int_of_digits cs of Inl e \<Rightarrow> Inl e | Inr v \<Rightarrow> Inr (- v))
          else if c = CHR ''+'' then int_of_digits cs
          else int_of_digits (c # cs))"

definition variant_key :: "variant_id \<Rightarrow> exn + (int \<times> int)" where
  "variant_key var =
     (if CHROM var = ''x'' then Inr (100, POS var)
      else if CHROM var = ''y'' then Inr (101, POS var)
      else (case int_of_string (CHROM var) of
              Inl e \<Rightarrow> Inl e
            | Inr c \<Rightarrow> Inr (c, POS var)))"

text \<open>
  \<open>xs.sort(key = variant_key)\<close> on variants: the keys are computed first, and an exception
  of a key ends the sort; the sort itself is stable.
\<close>

definition sort_by_variant_key :: "('a \<Rightarrow> variant_id) \<Rightarrow> 'a list \<Rightarrow> exn + 'a list" where
  "sort_by_variant_key var_of xs =
     (case collect (map (\<lambda>x. variant_key (var_of x)) xs) of
        Inl e \<Rightarrow> Inl e
      | Inr keys \<Rightarrow> Inr (map snd (sort_key fst (zip keys xs))))"

section \<open>VariantAndCnvGroup: reconciling variants with the CNV regions\<close>

text \<open>
  The regions of a chromosome: the source's dictionaries are \<open>defaultdict(list)\<close>, so a
  chromosome without an entry has the empty list.
\<close>

definition regions_of :: "cn_regions \<Rightarrow> string \<Rightarrow> cn_region list" where
  "regions_of regions chr = (case map_of regions chr of None \<Rightarrow> [] | Some rs \<Rightarrow> rs)"

definition is_region_normal_cn :: "cn_region \<Rightarrow> bool" where
  "is_region_normal_cn region = (major_cn region = minor_cn region \<and> minor_cn region = 1)"

text \<open>
  The inner loop of \<open>_filter_multiple_abnormal_cn_regions\<close>: the regions that follow
  \<open>region\<close> and start where it starts. One of them that ends elsewhere fails the
  assertion.
\<close>

fun regions_at_same_start :: "cn_region \<Rightarrow> cn_region list \<Rightarrow> exn + cn_region list" where
  "regions_at_same_start region [] = Inr []"
| "regions_at_same_start region (r # rs) =
     (if region_start r = region_start region
      then (if region_end r = region_end region
            then (case regions_at_same_start region rs of
                    Inl e \<Rightarrow> Inl e
                  | Inr same \<Rightarrow> Inr (r # same))
            else Inl AssertionError)
      else Inr [])"

text \<open>
  The outer loop over one chromosome's regions; \<open>idx\<close> of the source is the position of the
  head of the list that is still to be read. The cellularity of the group is \<open>None\<close> until
  \<open>add_cnvs\<close> sets it, and no prevalence equals \<open>None\<close>.
\<close>

function filter_chrom_regions :: "real option \<Rightarrow> cn_region list \<Rightarrow> exn + cn_region list" where
  "filter_chrom_regions c [] = Inr []"
| "filter_chrom_regions c (region # rest) =
     (if Some (cellular_prevalence region) = c
      then (case filter_chrom_regions c rest of
              Inl e \<Rightarrow> Inl e
            | Inr good \<Rightarrow> Inr (region # good))
      else (case regions_at_same_start region rest of
              Inl e \<Rightarrow> Inl e
            | Inr same \<Rightarrow>
                let regions_at_same_coords = region # same;
                    abnormal_regions =
                      filter (\<lambda>r. \<not> is_region_normal_cn r) regions_at_same_coords
                in (case filter_chrom_regions c (drop (length same) rest) of
                      Inl e \<Rightarrow> Inl e
                    | Inr good \<Rightarrow>
                        Inr ((if length abnormal_regions = 1 then [hd abnormal_regions] else [])
                             @ good))))"
  by pat_completeness auto
termination
  by (relation "measure (\<lambda>(c, reg). length reg)") auto

text \<open>
  \<open>_filter_multiple_abnormal_cn_regions\<close>: a chromosome gets an entry in the result only
  when a region of it is kept.
\<close>

fun filter_multiple_abnormal_cn_regions :: "real option \<Rightarrow> cn_regions \<Rightarrow> exn + cn_regions" where
  "filter_multiple_abnormal_cn_regions c [] = Inr []"
| "filter_multiple_abnormal_cn_regions c ((chr, reg) # regions) =
     (case filter_chrom_regions c reg of
        Inl e \<Rightarrow> Inl e
      | Inr good \<Rightarrow>
          (case filter_multiple_abnormal_cn_regions c regions of
             Inl e \<Rightarrow> Inl e
           | Inr others \<Rightarrow> Inr ((if good = [] then [] else [(chr, good)]) @ others)))"

text \<open>
  The state of a \<open>VariantAndCnvGroup\<close>. The read-count matrices are those returned by
  \<open>parse_variants\<close>: integer matrices, one row per variant and one column per sample.
\<close>

record variant_and_cnv_group =
  g_cn_regions :: "cn_regions option"
  group_cellularity :: "real option"
  g_variants :: "variant_id list"
  variant_idxs :: "nat list"
  ref_read_counts :: "int list list"
  total_read_counts :: "int list list"
  estimated_read_depth :: depth

definition new_group :: variant_and_cnv_group where
  "new_group =
     \<lparr> g_cn_regions = None, group_cellularity = None, g_variants = [], variant_idxs = [],
       ref_read_counts = [], total_read_counts = [], estimated_read_depth = IntDepth 50 \<rparr>"

definition estimate_read_depth :: "variant_id list \<Rightarrow> int list list \<Rightarrow> depth" where
  "estimate_read_depth vs total_counts =
     (if length vs = 0 then IntDepth 50
      else FloatDepth (of_int (sum_list (concat total_counts))
                       / of_nat (length (concat total_counts))))"

definition add_variants ::
  "variant_and_cnv_group \<Rightarrow> variant_id list \<Rightarrow> int list list \<Rightarrow> int list list
   \<Rightarrow> variant_and_cnv_group" where
  "add_variants g vs ref_counts total_counts =
     g \<lparr> g_variants := vs,
         variant_idxs := [0 ..< length vs],
         ref_read_counts := ref_counts,
         total_read_counts := total_counts,
         estimated_read_depth := estimate_read_depth vs total_counts \<rparr>"

definition add_cnvs :: "variant_and_cnv_group \<Rightarrow> cn_regions \<Rightarrow> variant_and_cnv_group" where
  "add_cnvs g regions =
     g \<lparr> g_cn_regions := Some regions, group_cellularity := Some (find_cellularity regions) \<rparr>"

definition has_cnvs :: "variant_and_cnv_group \<Rightarrow> bool" where
  "has_cnvs g = (g_cn_regions g \<noteq> None)"

text \<open>\<open>L[idx]\<close> for an index that is not negative.\<close>

definition nth_exn :: "'a list \<Rightarrow> nat \<Rightarrow> exn + 'a" where
  "nth_exn xs i = (if i < length xs then Inr (xs ! i) else Inl IndexError)"

definition get_elements_at_indices :: "'a list \<Rightarrow> nat list \<Rightarrow> exn + 'a list" where
  "get_elements_at_indices L indices = collect (map (nth_exn L) indices)"

definition in_some_region :: "cn_regions \<Rightarrow> variant_id \<Rightarrow> bool" where
  "in_some_region regions variant =
     list_ex (\<lambda>region. region_start region \<le> POS variant \<and> POS variant \<le> region_end region)
       (regions_of regions (CHROM variant))"

text \<open>
  \<open>_print_variant_differences\<close> only logs, but it sorts the removed variants by
  \<open>variant_key\<close> first, which raises for a chromosome name that is no number.
\<close>

definition print_variant_differences :: "variant_id list \<Rightarrow> variant_id list \<Rightarrow> exn + unit" where
  "print_variant_differences before after =
     (case sort_by_variant_key (\<lambda>v. v) (remdups (filter (\<lambda>v. v \<notin> set after) before)) of
        Inl e \<Rightarrow> Inl e
      | Inr removed \<Rightarrow> Inr ())"

definition filter_variants_outside_regions ::
  "variant_and_cnv_group \<Rightarrow> cn_regions \<Rightarrow> exn + variant_and_cnv_group" where
  "filter_variants_outside_regions g regions =
     (case get_elements_at_indices (g_variants g) (variant_idxs g) of
        Inl e \<Rightarrow> Inl e
      | Inr before \<Rightarrow>
          let filtered = map fst (filter (\<lambda>(vidx, variant). in_some_region regions variant)
                                    (zip (variant_idxs g) before))
          in (case get_elements_at_indices (g_variants g) filtered of
                Inl e \<Rightarrow> Inl e
              | Inr after \<Rightarrow>
                  (case print_variant_differences before after of
                     Inl e \<Rightarrow> Inl e
                   | Inr u \<Rightarrow> Inr (g \<lparr> variant_idxs := filtered \<rparr>))))"

definition retain_only_variants_in_normal_cn_regions ::
  "variant_and_cnv_group \<Rightarrow> exn + variant_and_cnv_group" where
  "retain_only_variants_in_normal_cn_regions g =
     (case g_cn_regions g of
        None \<Rightarrow> Inl (Exception ''CN regions not yet provided'')
      | Some regions \<Rightarrow>
          filter_variants_outside_regions g
            (map (\<lambda>(chr, rs).
                    (chr, filter (\<lambda>region. is_region_normal_cn region
                                    \<and> Some (cellular_prevalence region) = group_cellularity g) rs))
               regions))"

definition exclude_variants_in_subclonal_cnvs ::
  "variant_and_cnv_group \<Rightarrow> exn + variant_and_cnv_group" where
  "exclude_variants_in_subclonal_cnvs g =
     (case g_cn_regions g of
        None \<Rightarrow> Inl (Exception ''CN regions not yet provided'')
      | Some regions \<Rightarrow>
          (case filter_multiple_abnormal_cn_regions (group_cellularity g) regions of
             Inl e \<Rightarrow> Inl e
           | Inr good_regions \<Rightarrow> filter_variants_outside_regions g good_regions))"

definition subclonal_then_clonal :: cn_regions where
  "subclonal_then_clonal =
     [(''1'', [\<lparr> region_start = 1, region_end = 100, major_cn = 2, minor_cn = 1,
                 cellular_prevalence = 3 / 10 \<rparr>,
               \<lparr> region_start = 1, region_end = 100, major_cn = 3, minor_cn = 1,
                 cellular_prevalence = 4 / 5 \<rparr>])]"

definition subclonal_then_clonal_normal :: cn_regions where
  "subclonal_then_clonal_normal =
     [(''1'', [\<lparr> region_start = 1, region_end = 100, major_cn = 2, minor_cn = 1,
                 cellular_prevalence = 3 / 10 \<rparr>,
               \<lparr> region_start = 1, region_end = 100, major_cn = 1, minor_cn = 1,
                 cellular_prevalence = 4 / 5 \<rparr>])]"

definition one_variant_group :: variant_and_cnv_group where
  "one_variant_group = add_variants new_group [\<lparr> CHROM = ''1'', POS = 50 \<rparr>] [[10]] [[20]]"

section \<open>Imputation of missing read counts\<close>

text \<open>
  A float matrix of numpy is a list of rows, all of one length; a NaN cell is \<open>None\<close>.
  \<open>ma.fix_invalid\<close> masks the NaN cells, and the masked-array operations leave masked
  cells out, as the comments of the source say ("Missing values are masked").
\<close>

type_synonym matrix = "real option list list"

definition num_samples :: "'a list list \<Rightarrow> nat" where
  "num_samples M = (case M of [] \<Rightarrow> 0 | row # rows \<Rightarrow> length row)"

definition rectangular :: "'a list list \<Rightarrow> bool" where
  "rectangular M = list_all (\<lambda>row. length row = num_samples M) M"

definition column :: "'a list list \<Rightarrow> nat \<Rightarrow> 'a list" where
  "column M s = map (\<lambda>row. row ! s) M"

text \<open>
  The logarithm of a masked array masks, besides the masked cells, the cells outside its
  domain.
\<close>

definition ma_log :: "real option \<Rightarrow> real option" where
  "ma_log cell = (case cell of None \<Rightarrow> None | Some x \<Rightarrow> if 0 < x then Some (ln x) else None)"

text \<open>
  \<open>scipy.stats.mstats.gmean\<close>: the exponential of the mean of the logarithms of the cells
  that are not masked. With every cell masked the result is masked.
\<close>

definition gmean :: "real option list \<Rightarrow> real option" where
  "gmean cells =
     (let logs = List.map_filter ma_log cells
      in if logs = [] then None else Some (exp (sum_list logs / of_nat (length logs))))"

definition sample_means :: "matrix \<Rightarrow> real option list" where
  "sample_means M = map (\<lambda>s. gmean (column M s)) [0 ..< num_samples M]"

text \<open>
  \<open>np.dot(masked_total_reads, np.diag(1./sample_means))\<close>: every column is multiplied by the
  inverse of its sample mean.
\<close>

definition normalized_to_sample :: "matrix \<Rightarrow> real list \<Rightarrow> matrix" where
  "normalized_to_sample M means =
     map (\<lambda>row. map2 (\<lambda>cell m. map_option (\<lambda>x. x * (1 / m)) cell) row means) M"

text \<open>
  \<open>impute_missing_total_reads\<close>. The assertions on the means fail for a mean that is
  masked (a sample or a variant without any positive observed count), following the
  specification, which makes zero or NaN geometric means fatal; a mean that is not masked is
  an exponential and so positive.
\<close>

definition impute_missing_total_reads :: "matrix \<Rightarrow> real \<Rightarrow> exn + int list list" where
  "impute_missing_total_reads totals missing_variant_confidence =
     (case those (sample_means totals) of
        None \<Rightarrow> Inl AssertionError
      | Some means \<Rightarrow>
          (case those (map gmean (normalized_to_sample totals means)) of
             None \<Rightarrow> Inl AssertionError
           | Some variant_mean_reads \<Rightarrow>
               let imputed_counts = map (\<lambda>vm. map (\<lambda>m. vm * m) means) variant_mean_reads;
                   filled = map2 (\<lambda>row irow.
                              map2 (\<lambda>cell i. case cell of None \<Rightarrow> i | Some x \<Rightarrow> x) row irow)
                              totals imputed_counts
               in if list_ex (list_ex (\<lambda>x. x \<le> 0)) filled then Inl AssertionError
                  else Inr (map2 (\<lambda>row frow.
                              map2 (\<lambda>cell x. \<lfloor>case cell of
                                                  None \<Rightarrow> x * missing_variant_confidence
                                                | Some y \<Rightarrow> x\<rfloor>) row frow)
                              totals filled)))"

text \<open>
  \<open>impute_missing_ref_reads\<close>: the total reads are the integer matrix that
  \<open>impute_missing_total_reads\<close> returned, so none of them is NaN. A NaN coordinate of
  ref\_reads outside that matrix is an \<open>IndexError\<close>; \<open>astype(np.int)\<close> truncates toward
  zero.
\<close>

definition impute_ref_cell :: "int list list \<Rightarrow> nat \<Rightarrow> nat \<Rightarrow> real option \<Rightarrow> exn + int" where
  "impute_ref_cell totals v s cell =
     (case cell of
        Some x \<Rightarrow> Inr (py_int x)
      | None \<Rightarrow>
          (case nth_exn totals v of
             Inl e \<Rightarrow> Inl e
           | Inr row \<Rightarrow> nth_exn row s))"

definition impute_missing_ref_reads :: "matrix \<Rightarrow> int list list \<Rightarrow> exn + int list list" where
  "impute_missing_ref_reads refs totals =
     collect (map (\<lambda>(v, row). collect (map (\<lambda>(s, cell). impute_ref_cell totals v s cell)
                                         (enumerate 0 row)))
                (enumerate 0 refs))"

section \<open>The imputed value as the specification words it\<close>





definition example_total_reads :: matrix where
  "example_total_reads = [[Some 1, None], [Some 1, Some 1]]"

definition example_ref_reads :: matrix where
  "example_ref_reads = [[Some 1, None], [Some 0, Some 1]]"

definition example_depths :: matrix where
  "example_depths = [[Some 4, None], [Some 1, Some 3]]"

section \<open>Subsampling and formatting of variants\<close>

text \<open>
  The loop of \<open>VariantAndCnvGroup.format_variants\<close> over the shuffled indices; \<open>prio\<close>
  tells whether the variant of an index is in the priority set.
\<close>

fun subsample_loop ::
  "int \<Rightarrow> (nat \<Rightarrow> bool) \<Rightarrow> nat list \<Rightarrow> nat list \<Rightarrow> nat list \<Rightarrow> nat list \<times> nat list" where
  "subsample_loop sample_size prio subsampled remaining [] = (subsampled, remaining)"
| "subsample_loop sample_size prio subsampled remaining (variant_idx # idxs) =
     (if int (length subsampled) < sample_size \<and> prio variant_idx
      then subsample_loop sample_size prio (subsampled @ [variant_idx]) remaining idxs
      else subsample_loop sample_size prio subsampled (remaining @ [variant_idx]) idxs)"

text \<open>
  The first half of \<open>format_variants\<close>, up to the two sorted index lists. The generator of
  \<open>random.shuffle\<close>, seeded once in \<open>main\<close>, is the parameter \<open>shuffle\<close>: a function
  that permutes a list. The indices are looked up in the variant list before the loop, which
  reports an index out of range as the loop would.
\<close>

definition subsample_indices ::
  "variant_and_cnv_group \<Rightarrow> (nat list \<Rightarrow> nat list) \<Rightarrow> int option \<Rightarrow> (string \<times> int) set
   \<Rightarrow> exn + (nat list \<times> nat list)" where
  "subsample_indices g shuffle sample_size_opt priority_ssms =
     (let sample_size = (case sample_size_opt of
                           None \<Rightarrow> int (length (variant_idxs g))
                         | Some n \<Rightarrow> n);
          shuffled = shuffle (variant_idxs g)
      in case get_elements_at_indices (g_variants g) shuffled of
           Inl e \<Rightarrow> Inl e
         | Inr vs \<Rightarrow>
             let prio = (\<lambda>idx. (CHROM (g_variants g ! idx), POS (g_variants g ! idx))
                                 \<in> priority_ssms);
                 (subsampled0, remaining) = subsample_loop sample_size prio [] [] shuffled
             in if \<not> int (length subsampled0) \<le> sample_size then Inl AssertionError
                else
                  let needed = nat (sample_size - int (length subsampled0));
                      subsampled = subsampled0 @ take needed remaining;
                      nonsubsampled = drop needed remaining
                  in case sort_by_variant_key (\<lambda>idx. g_variants g ! idx) subsampled of
                       Inl e \<Rightarrow> Inl e
                     | Inr subsampled_sorted \<Rightarrow>
                         (case sort_by_variant_key (\<lambda>idx. g_variants g ! idx) nonsubsampled of
                            Inl e \<Rightarrow> Inl e
                          | Inr nonsubsampled_sorted \<Rightarrow>
                              Inr (subsampled_sorted, nonsubsampled_sorted)))"

text \<open>
  \<open>VariantFormatter.format_variants\<close>: a \<open>VariantId\<close> has no ID attribute, so the name is
  always chromosome\_position; the counter runs on from one call to the next.
\<close>

definition format_variant ::
  "nat \<Rightarrow> variant_id \<Rightarrow> int list \<Rightarrow> int list \<Rightarrow> real \<Rightarrow> formatted_variant" where
  "format_variant counter variant ref_row total_row error_rate =
     \<lparr> ssm_id = CHR ''s'' # str_nat counter,
       chrom = CHROM variant,
       pos = POS variant,
       variant_name = CHROM variant @ ''_'' @ str_int (POS variant),
       v_ref_reads = ref_row,
       v_total_reads = total_row,
       expected_ref_freq = 1 - error_rate,
       expected_var_freq = (if CHROM variant \<in> {''x'', ''y'', ''m''} then error_rate
                            else 1 / 2 - error_rate) \<rparr>"

fun formatter_format_variants ::
  "nat \<Rightarrow> (variant_id \<times> int list \<times> int list) list \<Rightarrow> real \<Rightarrow> formatted_variant list" where
  "formatter_format_variants counter [] error_rate = []"
| "formatter_format_variants counter ((variant, ref_row, total_row) # rest) error_rate =
     format_variant counter variant ref_row total_row error_rate
       # formatter_format_variants (counter + 1) rest error_rate"

definition rows_at :: "variant_and_cnv_group \<Rightarrow> nat list
   \<Rightarrow> exn + (variant_id \<times> int list \<times> int list) list" where
  "rows_at g idxs =
     (case get_elements_at_indices (g_variants g) idxs of
        Inl e \<Rightarrow> Inl e
      | Inr vs \<Rightarrow>
          (case get_elements_at_indices (ref_read_counts g) idxs of
             Inl e \<Rightarrow> Inl e
           | Inr ref_rows \<Rightarrow>
               (case get_elements_at_indices (total_read_counts g) idxs of
                  Inl e \<Rightarrow> Inl e
                | Inr total_rows \<Rightarrow> Inr (zip vs (zip ref_rows total_rows)))))"

definition format_variants ::
  "variant_and_cnv_group \<Rightarrow> (nat list \<Rightarrow> nat list) \<Rightarrow> int option \<Rightarrow> real
   \<Rightarrow> (string \<times> int) set \<Rightarrow> exn + (formatted_variant list \<times> formatted_variant list)" where
  "format_variants g shuffle sample_size error_rate priority_ssms =
     (case subsample_indices g shuffle sample_size priority_ssms of
        Inl e \<Rightarrow> Inl e
      | Inr (subsampled, nonsubsampled) \<Rightarrow>
          (case rows_at g subsampled of
             Inl e \<Rightarrow> Inl e
           | Inr sub_rows \<Rightarrow>
               (case rows_at g nonsubsampled of
                  Inl e \<Rightarrow> Inl e
                | Inr nonsub_rows \<Rightarrow>
                    Inr (formatter_format_variants 0 sub_rows error_rate,
                         formatter_format_variants (length sub_rows) nonsub_rows error_rate))))"

section \<open>Subsampling as the specification words it\<close>

text \<open>
  The priority variants, in shuffled order, fill the subsample first, up to the sample size;
  the other shuffled variants fill what is left of it, and those that do not fit are the
  nonsubsampled group.
\<close>

definition subsample_spec :: "nat \<Rightarrow> (nat \<Rightarrow> bool) \<Rightarrow> nat list \<Rightarrow> nat list \<times> nat list" where
  "subsample_spec n prio shuffled =
     (let chosen = take n (filter prio shuffled);
          others = filter (\<lambda>i. i \<notin> set chosen) shuffled
      in (chosen @ take (n - length chosen) others, drop (n - length chosen) others))"

definition example_group :: variant_and_cnv_group where
  "example_group =
     add_variants new_group
       [\<lparr> CHROM = ''1'', POS = 10 \<rparr>, \<lparr> CHROM = ''1'', POS = 20 \<rparr>,
        \<lparr> CHROM = ''2'', POS = 5 \<rparr>, \<lparr> CHROM = ''10'', POS = 7 \<rparr>]
       [[1], [2], [3], [4]] [[5], [6], [7], [8]]"

section \<open>Parsed VCF records\<close>

text \<open>
  What the PyVCF reader hands over for one record: the value of a field is an integer, a
  list of integers or a string; a call is the data of one sample column; ALT holds
  \<open>None\<close> for a missing alternate allele; FILTER is \<open>None\<close> or a list of filter names;
  \<open>is_snp\<close> is PyVCF's own classification of the record.
\<close>

datatype fval = IntV int | IntsV "int list" | StrV string

record call =
  sample_name :: string
  call_data :: "(string \<times> fval) list"

record vcf_record =
  r_CHROM :: string
  r_POS :: int
  r_REF :: string
  r_ALT :: "string option list"
  r_FILTER :: "string list option"
  r_INFO :: "(string \<times> fval) list"
  r_samples :: "call list"
  r_is_snp :: bool

definition bind_exn :: "exn + 'a \<Rightarrow> ('a \<Rightarrow> exn + 'b) \<Rightarrow> exn + 'b" where
  "bind_exn m f = (case m of Inl e \<Rightarrow> Inl e | Inr x \<Rightarrow> f x)"

text \<open>\<open>xs[i]\<close>, where a negative index counts from the end.\<close>

definition py_index :: "'a list \<Rightarrow> int \<Rightarrow> exn + 'a" where
  "py_index xs i =
     (if 0 \<le> i \<and> i < int (length xs) then Inr (xs ! nat i)
      else if i < 0 \<and> - int (length xs) \<le> i then Inr (xs ! nat (int (length xs) + i))
      else Inl IndexError)"

definition to_int :: "fval \<Rightarrow> exn + int" where
  "to_int v = (case v of IntV i \<Rightarrow> Inr i | StrV s \<Rightarrow> int_of_string s | IntsV xs \<Rightarrow> Inl TypeError)"

definition val_index :: "fval \<Rightarrow> int \<Rightarrow> exn + fval" where
  "val_index v i =
     (case v of
        IntsV xs \<Rightarrow> bind_exn (py_index xs i) (\<lambda>x. Inr (IntV x))
      | StrV s \<Rightarrow> bind_exn (py_index s i) (\<lambda>c. Inr (StrV [c]))
      | IntV k \<Rightarrow> Inl TypeError)"

definition val_len :: "fval \<Rightarrow> exn + nat" where
  "val_len v =
     (case v of IntsV xs \<Rightarrow> Inr (length xs) | StrV s \<Rightarrow> Inr (length s) | IntV k \<Rightarrow> Inl TypeError)"

text \<open>\<open>call['DP']\<close> and \<open>call.data.DP\<close>: a field the FORMAT column lacks is no attribute.\<close>

definition call_field :: "call \<Rightarrow> string \<Rightarrow> exn + fval" where
  "call_field c name =
     (case map_of (call_data c) name of None \<Rightarrow> Inl AttributeError | Some v \<Rightarrow> Inr v)"

definition info_field :: "vcf_record \<Rightarrow> string \<Rightarrow> exn + fval" where
  "info_field variant name =
     (case map_of (r_INFO variant) name of None \<Rightarrow> Inl KeyError | Some v \<Rightarrow> Inr v)"

text \<open>\<open>variant.genotype(name)\<close>: the call of the sample with that name.\<close>

definition genotype :: "vcf_record \<Rightarrow> string \<Rightarrow> exn + call" where
  "genotype variant name =
     (case filter (\<lambda>c. sample_name c = name) (r_samples variant) of
        [] \<Rightarrow> Inl KeyError
      | c # cs \<Rightarrow> Inr c)"

section \<open>Caller adapters\<close>

datatype parser_kind =
    Sanger | MutectPcawg | MutectSmchet | MutectTcga | Muse | DKFZ | Strelka | VarDict
  | PcawgConsensus

record variant_parser =
  kind :: parser_kind
  vcf_filename :: string
  tumor_sample :: "string option"
  tier :: int

text \<open>
  \<open>_get_tumor_index\<close>: with a tumor sample name (one that is not empty) the one column of
  that name, else the last column.
\<close>

definition get_tumor_index :: "variant_parser \<Rightarrow> vcf_record \<Rightarrow> exn + int" where
  "get_tumor_index p variant =
     (if tumor_sample p \<noteq> None \<and> tumor_sample p \<noteq> Some []
      then (let tumor_is = map fst (filter (\<lambda>(i, s). Some (sample_name s) = tumor_sample p)
                                      (enumerate 0 (r_samples variant)))
            in if length tumor_is = 1 then Inr (int (hd tumor_is)) else Inl AssertionError)
      else Inr (int (length (r_samples variant)) - 1))"

definition tumor_call :: "variant_parser \<Rightarrow> vcf_record \<Rightarrow> exn + call" where
  "tumor_call p variant =
     bind_exn (get_tumor_index p variant) (\<lambda>tumor_i. py_index (r_samples variant) tumor_i)"

definition call_int :: "call \<Rightarrow> string \<Rightarrow> exn + int" where
  "call_int c name = bind_exn (call_field c name) to_int"

definition call_int_at :: "call \<Rightarrow> string \<Rightarrow> int \<Rightarrow> exn + int" where
  "call_int_at c name i =
     bind_exn (call_field c name) (\<lambda>v. bind_exn (val_index v i) to_int)"

definition info_int_at :: "vcf_record \<Rightarrow> string \<Rightarrow> int \<Rightarrow> exn + int" where
  "info_int_at variant name i =
     bind_exn (info_field variant name) (\<lambda>v. bind_exn (val_index v i) to_int)"

text \<open>\<open>str\<close> of an alternate allele; a missing one prints as None.\<close>

definition alt_str :: "string option \<Rightarrow> string" where
  "alt_str alt = (case alt of None \<Rightarrow> ''None'' | Some a \<Rightarrow> a)"

definition find_ref_and_variant_nt :: "vcf_record \<Rightarrow> exn + (string \<times> string)" where
  "find_ref_and_variant_nt variant =
     (if length (r_REF variant) = length (r_ALT variant) \<and> length (r_ALT variant) = 1
      then Inr ([hd (r_REF variant)], alt_str (hd (r_ALT variant)))
      else Inl AssertionError)"

definition nt_count :: "(string \<times> int) list \<Rightarrow> string \<Rightarrow> exn + int" where
  "nt_count counts nt = (case map_of counts nt of None \<Rightarrow> Inl KeyError | Some k \<Rightarrow> Inr k)"

definition sanger_calc_read_counts :: "variant_parser \<Rightarrow> vcf_record \<Rightarrow> exn + (int \<times> int)" where
  "sanger_calc_read_counts p variant =
     bind_exn (genotype variant ''NORMAL'') (\<lambda>normal.
     bind_exn (genotype variant ''TUMOUR'') (\<lambda>tumor.
     bind_exn (find_ref_and_variant_nt variant) (\<lambda>(reference_nt, variant_nt).
     bind_exn (call_int tumor ''FAZ'') (\<lambda>fa.
     bind_exn (call_int tumor ''FCZ'') (\<lambda>fc.
     bind_exn (call_int tumor ''FGZ'') (\<lambda>fg.
     bind_exn (call_int tumor ''FTZ'') (\<lambda>ft.
     bind_exn (call_int tumor ''RAZ'') (\<lambda>ra.
     bind_exn (call_int tumor ''RCZ'') (\<lambda>rc.
     bind_exn (call_int tumor ''RGZ'') (\<lambda>rg.
     bind_exn (call_int tumor ''RTZ'') (\<lambda>rt.
       let forward = [(''A'', fa), (''C'', fc), (''G'', fg), (''T'', ft)];
           reverse = [(''A'', ra), (''C'', rc), (''G'', rg), (''T'', rt)]
       in bind_exn (nt_count forward reference_nt) (\<lambda>fr.
          bind_exn (nt_count reverse reference_nt) (\<lambda>rr.
          bind_exn (nt_count forward variant_nt) (\<lambda>fv.
          bind_exn (nt_count reverse variant_nt) (\<lambda>rv.
            let ref_count = fr + rr; variant_reads = fv + rv
            in Inr (ref_count, ref_count + variant_reads))))))))))))))))"

definition pcawg_consensus_calc_read_counts ::
  "variant_parser \<Rightarrow> vcf_record \<Rightarrow> exn + (int \<times> int)" where
  "pcawg_consensus_calc_read_counts p variant =
     (if \<not> (map_of (r_INFO variant) ''t_alt_count'' \<noteq> None
             \<and> map_of (r_INFO variant) ''t_ref_count'' \<noteq> None)
      then Inl ReadCountsUnavailableError
      else
        bind_exn (info_field variant ''t_alt_count'') (\<lambda>alts.
        bind_exn (info_field variant ''t_ref_count'') (\<lambda>refs.
        bind_exn (val_len alts) (\<lambda>la.
        bind_exn (val_len refs) (\<lambda>lr.
          if \<not> (la = lr \<and> lr = 1) then Inl AssertionError
          else
            bind_exn (bind_exn (val_index alts 0) to_int) (\<lambda>alt_reads.
            bind_exn (bind_exn (val_index refs 0) to_int) (\<lambda>ref_count.
              let tot = alt_reads + ref_count
              in if tot = 0 then Inl ReadCountsUnavailableError
                 else Inr (ref_count, tot))))))))"

text \<open>\<open>s.split(sep)\<close> for a separator of one character.\<close>

fun split_on :: "char \<Rightarrow> string \<Rightarrow> string list" where
  "split_on sep [] = [[]]"
| "split_on sep (c # cs) =
     (if c = sep then [] # split_on sep cs
      else (case split_on sep cs of
              [] \<Rightarrow> [[c]]
            | w # ws \<Rightarrow> (c # w) # ws))"

definition muse_get_normal_genotype :: "variant_parser \<Rightarrow> vcf_record \<Rightarrow> exn + int list" where
  "muse_get_normal_genotype p variant =
     bind_exn (get_tumor_index p variant) (\<lambda>tumor_i.
       if \<not> (tumor_i = 0 \<or> tumor_i = 1) then Inl AssertionError
       else
         bind_exn (py_index (r_samples variant) (1 - tumor_i)) (\<lambda>normal.
         bind_exn (call_field normal ''GT'') (\<lambda>gt.
           case gt of
             StrV s \<Rightarrow> bind_exn (collect (map int_of_string (split_on CHR ''/'' s)))
                         (\<lambda>ts. Inr (remdups ts))
           | IntV k \<Rightarrow> Inl AttributeError
           | IntsV ks \<Rightarrow> Inl AttributeError)))"

definition muse_calc_read_counts :: "variant_parser \<Rightarrow> vcf_record \<Rightarrow> exn + (int \<times> int)" where
  "muse_calc_read_counts p variant =
     bind_exn (muse_get_normal_genotype p variant) (\<lambda>normal_gts.
       if length normal_gts \<noteq> 1 then Inl AssertionError
       else
         let normal_gt = hd normal_gts
         in bind_exn (tumor_call p variant) (\<lambda>tumor.
            bind_exn (call_int tumor ''DP'') (\<lambda>tot.
            bind_exn (call_int_at tumor ''AD'' normal_gt) (\<lambda>ref_count.
              Inr (ref_count, tot)))))"

definition strelka_calc_read_counts :: "variant_parser \<Rightarrow> vcf_record \<Rightarrow> exn + (int \<times> int)" where
  "strelka_calc_read_counts p variant =
     bind_exn (py_index (r_ALT variant) 0) (\<lambda>alt.
     bind_exn (tumor_call p variant) (\<lambda>tumor.
     bind_exn (call_int tumor ''DP'') (\<lambda>dp.
       case alt of
         None \<Rightarrow> Inr (0 - 0, 0)
       | Some a \<Rightarrow>
           bind_exn (call_int_at tumor (a @ ''U'') 0) (\<lambda>variant_reads.
             Inr (dp - variant_reads, dp)))))"

definition mutect_tcga_calc_read_counts ::
  "variant_parser \<Rightarrow> vcf_record \<Rightarrow> exn + (int \<times> int)" where
  "mutect_tcga_calc_read_counts p variant =
     bind_exn (tumor_call p variant) (\<lambda>tumor.
     bind_exn (call_field tumor ''TD'') (\<lambda>td.
       case td of
         IntsV ks \<Rightarrow>
           (case ks of
              [ref_count, variant_reads] \<Rightarrow> Inr (ref_count, ref_count + variant_reads)
            | _ \<Rightarrow> Inl ValueError)
       | StrV s \<Rightarrow> Inl ValueError
       | IntV k \<Rightarrow> Inl TypeError))"

definition mutect_pcawg_calc_read_counts ::
  "variant_parser \<Rightarrow> vcf_record \<Rightarrow> exn + (int \<times> int)" where
  "mutect_pcawg_calc_read_counts p variant =
     bind_exn (tumor_call p variant) (\<lambda>tumor.
     bind_exn (call_int tumor ''ref_count'') (\<lambda>ref_count.
     bind_exn (call_int tumor ''alt_count'') (\<lambda>variant_reads.
       Inr (ref_count, ref_count + variant_reads))))"

definition mutect_smchet_calc_read_counts ::
  "variant_parser \<Rightarrow> vcf_record \<Rightarrow> exn + (int \<times> int)" where
  "mutect_smchet_calc_read_counts p variant =
     bind_exn (tumor_call p variant) (\<lambda>tumor.
     bind_exn (call_int_at tumor ''AD'' 0) (\<lambda>ref_count.
     bind_exn (call_int_at tumor ''AD'' 1) (\<lambda>variant_reads.
       Inr (ref_count, ref_count + variant_reads))))"

definition dkfz_calc_read_counts :: "variant_parser \<Rightarrow> vcf_record \<Rightarrow> exn + (int \<times> int)" where
  "dkfz_calc_read_counts p variant =
     bind_exn (info_int_at variant ''DP4'' 0) (\<lambda>for_ref_reads.
     bind_exn (info_int_at variant ''DP4'' 1) (\<lambda>back_ref_reads.
     bind_exn (info_int_at variant ''DP4'' 2) (\<lambda>for_variant_reads.
     bind_exn (info_int_at variant ''DP4'' 3) (\<lambda>back_variant_reads.
       let ref_count = for_ref_reads + back_ref_reads;
           var_reads = for_variant_reads + back_variant_reads
       in Inr (ref_count, ref_count + var_reads)))))"

text \<open>\<open>_calc_read_counts\<close>, by the class of the parser; VarDict inherits MuTect's (SMC-Het).\<close>

definition calc_read_counts :: "variant_parser \<Rightarrow> vcf_record \<Rightarrow> exn + (int \<times> int)" where
  "calc_read_counts p variant =
     (case kind p of
        Sanger \<Rightarrow> sanger_calc_read_counts p variant
      | MutectPcawg \<Rightarrow> mutect_pcawg_calc_read_counts p variant
      | MutectSmchet \<Rightarrow> mutect_smchet_calc_read_counts p variant
      | MutectTcga \<Rightarrow> mutect_tcga_calc_read_counts p variant
      | Muse \<Rightarrow> muse_calc_read_counts p variant
      | DKFZ \<Rightarrow> dkfz_calc_read_counts p variant
      | Strelka \<Rightarrow> strelka_calc_read_counts p variant
      | VarDict \<Rightarrow> mutect_smchet_calc_read_counts p variant
      | PcawgConsensus \<Rightarrow> pcawg_consensus_calc_read_counts p variant)"

section \<open>Filtering and listing the variants of one VCF file\<close>

text \<open>
  The files that can be read: a file name gives the records of the file, in order, or
  nothing when the file cannot be opened.
\<close>

type_synonym vcf_store = "string \<Rightarrow> vcf_record list option"

definition normalize_chrom :: "string \<Rightarrow> string" where
  "normalize_chrom c =
     (let l = lower c in if take 3 l = ''chr'' then drop 3 l else l)"

definition parse_vcf :: "vcf_store \<Rightarrow> string \<Rightarrow> exn + vcf_record list" where
  "parse_vcf store filename =
     (case store filename of
        None \<Rightarrow> Inl IOError
      | Some records \<Rightarrow>
          Inr (map (\<lambda>variant. variant \<lparr> r_CHROM := normalize_chrom (r_CHROM variant) \<rparr>) records))"

definition is_good_chrom :: "string \<Rightarrow> bool" where
  "is_good_chrom c = (c \<in> set (map str_nat [1 ..< 23]))"

definition no_filter :: "vcf_record \<Rightarrow> bool" where
  "no_filter variant = (r_FILTER variant = None \<or> r_FILTER variant = Some [])"

definition muse_passes :: "variant_parser \<Rightarrow> vcf_record \<Rightarrow> exn + bool" where
  "muse_passes p variant =
     bind_exn (muse_get_normal_genotype p variant) (\<lambda>normal_gts.
       if length normal_gts \<noteq> 1 then Inr False
       else if no_filter variant then Inr True
       else
         bind_exn (py_index (the (r_FILTER variant)) 0) (\<lambda>first_filter.
         bind_exn (py_index first_filter (- 1)) (\<lambda>last_char.
         bind_exn (int_of_string [last_char]) (\<lambda>t.
           Inr (t \<le> tier p)))))"

definition does_variant_pass_filters :: "variant_parser \<Rightarrow> vcf_record \<Rightarrow> exn + bool" where
  "does_variant_pass_filters p variant =
     (case kind p of
        Muse \<Rightarrow> muse_passes p variant
      | Strelka \<Rightarrow> Inr (r_is_snp variant \<and> no_filter variant)
      | _ \<Rightarrow> Inr (no_filter variant))"

fun filter_records :: "variant_parser \<Rightarrow> vcf_record list \<Rightarrow> exn + vcf_record list" where
  "filter_records p [] = Inr []"
| "filter_records p (variant # rest) =
     (if \<not> is_good_chrom (r_CHROM variant) then filter_records p rest
      else
        bind_exn (does_variant_pass_filters p variant) (\<lambda>passes.
          if \<not> passes then filter_records p rest
          else bind_exn (filter_records p rest) (\<lambda>kept. Inr (variant # kept))))"

text \<open>
  The loop of \<open>list_variants\<close>: \<open>ReadCountsUnavailableError\<close> is the one exception it
  catches, and the record that raised it is left out.
\<close>

fun read_counts_loop ::
  "variant_parser \<Rightarrow> vcf_record list \<Rightarrow> exn + (vcf_record \<times> int \<times> int) list" where
  "read_counts_loop p [] = Inr []"
| "read_counts_loop p (variant # rest) =
     (case calc_read_counts p variant of
        Inl e \<Rightarrow> (if e = ReadCountsUnavailableError then read_counts_loop p rest else Inl e)
      | Inr (ref_count, tot) \<Rightarrow>
          bind_exn (read_counts_loop p rest) (\<lambda>others. Inr ((variant, ref_count, tot) # others)))"

definition list_variants ::
  "variant_parser \<Rightarrow> vcf_store \<Rightarrow> exn + (vcf_record \<times> int \<times> int) list" where
  "list_variants p store =
     bind_exn (parse_vcf store (vcf_filename p)) (\<lambda>all_variants.
     bind_exn (filter_records p all_variants) (\<lambda>kept.
       read_counts_loop p kept))"

section \<open>parse\_variants\<close>

record args =
  vcf_files :: "string list"
  args_tumor_sample :: "string option"
  muse_tier :: int
  missing_variant_confidence :: real

text \<open>\<open>vcf_type, vcf_fn = vcf_file.split('=', 1)\<close>: without a '=' the unpacking fails.\<close>

definition split_type :: "string \<Rightarrow> exn + (string \<times> string)" where
  "split_type vcf_file =
     (if CHR ''='' \<in> set vcf_file
      then Inr (takeWhile (\<lambda>c. c \<noteq> CHR ''='') vcf_file,
                tl (dropWhile (\<lambda>c. c \<noteq> CHR ''='') vcf_file))
      else Inl ValueError)"

definition kind_of_type :: "string \<Rightarrow> parser_kind option" where
  "kind_of_type vcf_type =
     (if vcf_type = ''sanger'' then Some Sanger
      else if vcf_type = ''mutect_pcawg'' then Some MutectPcawg
      else if vcf_type = ''mutect_smchet'' then Some MutectSmchet
      else if vcf_type = ''mutect_tcga'' then Some MutectTcga
      else if vcf_type = ''muse'' then Some Muse
      else if vcf_type = ''dkfz'' then Some DKFZ
      else if vcf_type = ''strelka'' then Some Strelka
      else if vcf_type = ''vardict'' then Some VarDict
      else if vcf_type = ''pcawg_consensus'' then Some PcawgConsensus
      else None)"

definition make_parser :: "args \<Rightarrow> string \<Rightarrow> string \<Rightarrow> exn + variant_parser" where
  "make_parser a vcf_type vcf_fn =
     (case kind_of_type vcf_type of
        None \<Rightarrow> Inl (Exception (''Unknowon variant type: '' @ vcf_type))
      | Some k \<Rightarrow>
          Inr \<lparr> kind = k, vcf_filename = vcf_fn, tumor_sample = args_tumor_sample a,
                tier = (if k = Muse then muse_tier a else 0) \<rparr>)"

text \<open>
  The first loop of \<open>parse_variants\<close>. Besides its result it gives the names of the files
  that were opened, in order: a file is opened when the loop reaches its entry, after the
  entries before it have been parsed.
\<close>

fun parse_files ::
  "args \<Rightarrow> vcf_store \<Rightarrow> string list
   \<Rightarrow> string list \<times> (exn + (vcf_record \<times> int \<times> int) list list)" where
  "parse_files a store [] = ([], Inr [])"
| "parse_files a store (vcf_file # rest) =
     (case split_type vcf_file of
        Inl e \<Rightarrow> ([], Inl e)
      | Inr (vcf_type, vcf_fn) \<Rightarrow>
          (case make_parser a vcf_type vcf_fn of
             Inl e \<Rightarrow> ([], Inl e)
           | Inr variant_parser \<Rightarrow>
               (case list_variants variant_parser store of
                  Inl e \<Rightarrow> ([vcf_fn], Inl e)
                | Inr parsed \<Rightarrow>
                    (case parse_files a store rest of
                       (opened, Inl e) \<Rightarrow> (vcf_fn # opened, Inl e)
                     | (opened, Inr others) \<Rightarrow> (vcf_fn # opened, Inr (parsed # others))))))"

definition variant_id_of :: "vcf_record \<Rightarrow> variant_id" where
  "variant_id_of v = \<lparr> CHROM = r_CHROM v, POS = r_POS v \<rparr>"

fun index_of :: "'a \<Rightarrow> 'a list \<Rightarrow> exn + nat" where
  "index_of x [] = Inl KeyError"
| "index_of x (y # ys) =
     (if x = y then Inr 0 else bind_exn (index_of x ys) (\<lambda>i. Inr (Suc i)))"

definition set_cell :: "matrix \<Rightarrow> nat \<Rightarrow> nat \<Rightarrow> real \<Rightarrow> matrix" where
  "set_cell M v s x = M[v := (M ! v)[s := Some x]]"

text \<open>
  The second loop of \<open>parse_variants\<close>, for one sample: every listed record writes its
  counts into the cell of its variant and of this sample.
\<close>

fun fill_sample ::
  "variant_id list \<Rightarrow> nat \<Rightarrow> (vcf_record \<times> int \<times> int) list \<Rightarrow> matrix \<times> matrix
   \<Rightarrow> exn + (matrix \<times> matrix)" where
  "fill_sample ids sample_idx [] (refs, totals) = Inr (refs, totals)"
| "fill_sample ids sample_idx ((variant, ref_count, tot) # rest) (refs, totals) =
     bind_exn (index_of (variant_id_of variant) ids) (\<lambda>variant_idx.
       fill_sample ids sample_idx rest
         (set_cell refs variant_idx sample_idx (of_int ref_count),
          set_cell totals variant_idx sample_idx (of_int tot)))"

fun fill_samples ::
  "variant_id list \<Rightarrow> nat \<Rightarrow> (vcf_record \<times> int \<times> int) list list \<Rightarrow> matrix \<times> matrix
   \<Rightarrow> exn + (matrix \<times> matrix)" where
  "fill_samples ids sample_idx [] ms = Inr ms"
| "fill_samples ids sample_idx (parsed # rest) ms =
     bind_exn (fill_sample ids sample_idx parsed ms) (\<lambda>ms'.
       fill_samples ids (sample_idx + 1) rest ms')"

text \<open>
  \<open>parse_variants\<close>. \<open>list(set(...))\<close> keeps one copy of every identity, in an order that
  the sort by \<open>variant_key\<close> then replaces.
\<close>

definition build_matrices ::
  "args \<Rightarrow> (vcf_record \<times> int \<times> int) list list
   \<Rightarrow> exn + (variant_id list \<times> int list list \<times> int list list)" where
  "build_matrices a parsed_variants =
     (let num_s = length (vcf_files a);
          all_variant_ids0 = remdups (concat (map (map (\<lambda>(v, r, t). variant_id_of v))
                                                parsed_variants))
      in bind_exn (sort_by_variant_key (\<lambda>v. v) all_variant_ids0) (\<lambda>all_variant_ids.
           let num_variants = length all_variant_ids;
               nans = replicate num_variants (replicate num_s None)
           in bind_exn (fill_samples all_variant_ids 0 parsed_variants (nans, nans))
                (\<lambda>(ref_counts, total_counts).
           bind_exn (impute_missing_total_reads total_counts (missing_variant_confidence a))
                (\<lambda>total_imputed.
           bind_exn (impute_missing_ref_reads ref_counts total_imputed)
                (\<lambda>ref_imputed.
             Inr (all_variant_ids, ref_imputed, total_imputed))))))"

definition parse_variants ::
  "args \<Rightarrow> vcf_store
   \<Rightarrow> string list \<times> (exn + (variant_id list \<times> int list list \<times> int list list))" where
  "parse_variants a store =
     (case parse_files a store (vcf_files a) of
        (opened, Inl e) \<Rightarrow> (opened, Inl e)
      | (opened, Inr parsed_variants) \<Rightarrow> (opened, build_matrices a parsed_variants))"

definition file_of :: "string \<Rightarrow> string" where
  "file_of vcf_file = tl (dropWhile (\<lambda>c. c \<noteq> CHR ''='') vcf_file)"

section \<open>Example records\<close>

definition tumor_column :: "(string \<times> fval) list \<Rightarrow> call list" where
  "tumor_column tumor_data =
     [\<lparr> sample_name = ''NORMAL'', call_data = [(''DP'', IntV 30)] \<rparr>,
      \<lparr> sample_name = ''TUMOR'', call_data = tumor_data \<rparr>]"

definition zero_depth_record :: vcf_record where
  "zero_depth_record =
     \<lparr> r_CHROM = ''chr1'', r_POS = 100, r_REF = ''C'', r_ALT = [Some ''A''],
       r_FILTER = None, r_INFO = [(''t_alt_count'', IntsV [0]), (''t_ref_count'', IntsV [0])],
       r_samples = tumor_column [(''DP'', IntV 0), (''AU'', IntsV [0, 0]), (''AD'', IntsV [0, 0])],
       r_is_snp = True \<rparr>"

definition covered_record :: vcf_record where
  "covered_record =
     \<lparr> r_CHROM = ''chr2'', r_POS = 200, r_REF = ''G'', r_ALT = [Some ''T''],
       r_FILTER = None, r_INFO = [(''t_alt_count'', IntsV [10]), (''t_ref_count'', IntsV [30])],
       r_samples = tumor_column [(''DP'', IntV 40), (''TU'', IntsV [10, 10]),
                                 (''AD'', IntsV [30, 10])],
       r_is_snp = True \<rparr>"

definition example_store :: vcf_store where
  "example_store filename =
     (if filename = ''a.vcf'' then Some [covered_record, zero_depth_record]
      else if filename = ''b.vcf'' then Some [covered_record]
      else None)"

definition example_args :: "string list \<Rightarrow> args" where
  "example_args entries =
     \<lparr> vcf_files = entries, args_tumor_sample = None, muse_tier = 0,
       missing_variant_confidence = 1 \<rparr>"

definition example_parser :: "parser_kind \<Rightarrow> variant_parser" where
  "example_parser k = \<lparr> kind = k, vcf_filename = ''a.vcf'', tumor_sample = None, tier = 0 \<rparr>"

section \<open>Properties of the CNV formatter\<close>


lemma py_int_ge0: "0 \<le> x \<Longrightarrow> 0 \<le> py_int x"
  by (simp add: py_int_def)





lemma collect_Inr: "collect rs = Inr xs \<Longrightarrow> rs = map Inr xs"
proof (induction rs arbitrary: xs)
  case Nil
  then show ?case by simp
next
  case (Cons r rs)
  then show ?case by (cases r) (auto split: sum.splits)
qed

lemma collect_map_Inr:
  assumes "collect (map f xs) = Inr ys"
  shows "length ys = length xs" "\<And>i. i < length xs \<Longrightarrow> f (xs ! i) = Inr (ys ! i)"
proof -
  have m: "map f xs = map Inr ys" using assms by (rule collect_Inr)
  show l: "length ys = length xs" using arg_cong[OF m, of length] by simp
  fix i assume i: "i < length xs"
  have "map f xs ! i = f (xs ! i)" using i by simp
  moreover have "map Inr ys ! i = Inr (ys ! i)" using i l by simp
  ultimately show "f (xs ! i) = Inr (ys ! i)" using m by metis
qed

















section \<open>The merge pass\<close>

lemma merge_into_prevalence [simp]:
  "cellular_prevalence (merge_into l cur) = cellular_prevalence l"
  by (simp add: merge_into_def Let_def)
























section \<open>Subclonal-exclusion mode\<close>

lemma subclonal_then_clonal_cellularity: "find_cellularity subclonal_then_clonal = 4 / 5"
  by (simp add: find_cellularity_def subclonal_then_clonal_def)

lemma subclonal_then_clonal_filtered:
  "filter_multiple_abnormal_cn_regions (Some (4 / 5)) subclonal_then_clonal = Inr []"
  by (simp add: subclonal_then_clonal_def is_region_normal_cn_def)

text \<open>
  C3. The source's comment reads "Accept clonal regions unconditionally, whether normal or
  abnormal CN", but the scan of a block that a sub-clonal region heads takes in every
  following region with the same start, clonal ones too. On chromosome 1 with the regions
  (1, 100, CN 2/1, prevalence 0.3) and (1, 100, CN 3/1, prevalence 0.8), the cellularity is
  0.8, the second region is clonal, and no region is retained: both count as abnormal
  regions of one block. The variant at position 50, which lies inside the clonal region, is
  discarded. With a normal-CN clonal region in second place, only the sub-clonal region is
  retained.
\<close>

theorem clonal_region_in_subclonal_block_dropped:
  "find_cellularity subclonal_then_clonal = 4 / 5
   \<and> filter_multiple_abnormal_cn_regions (Some (find_cellularity subclonal_then_clonal))
         subclonal_then_clonal = Inr []
   \<and> exclude_variants_in_subclonal_cnvs (add_cnvs one_variant_group subclonal_then_clonal)
       = Inr (add_cnvs one_variant_group subclonal_then_clonal \<lparr> variant_idxs := [] \<rparr>)
   \<and> filter_multiple_abnormal_cn_regions (Some (4 / 5)) subclonal_then_clonal_normal
       = Inr [(''1'', [\<lparr> region_start = 1, region_end = 100, major_cn = 2, minor_cn = 1,
                         cellular_prevalence = 3 / 10 \<rparr>])]"
proof -
  have 1: "exclude_variants_in_subclonal_cnvs (add_cnvs one_variant_group subclonal_then_clonal)
       = Inr (add_cnvs one_variant_group subclonal_then_clonal \<lparr> variant_idxs := [] \<rparr>)"
    by (simp add: exclude_variants_in_subclonal_cnvs_def add_cnvs_def
        subclonal_then_clonal_cellularity subclonal_then_clonal_filtered
        filter_variants_outside_regions_def one_variant_group_def add_variants_def new_group_def
        get_elements_at_indices_def nth_exn_def in_some_region_def regions_of_def
        print_variant_differences_def sort_by_variant_key_def variant_key_def int_of_string_def
        strip_def is_space_def int_of_digits_def is_digit_def)
  have 2: "filter_multiple_abnormal_cn_regions (Some (4 / 5)) subclonal_then_clonal_normal
       = Inr [(''1'', [\<lparr> region_start = 1, region_end = 100, major_cn = 2, minor_cn = 1,
                         cellular_prevalence = 3 / 10 \<rparr>])]"
    by (simp add: subclonal_then_clonal_normal_def is_region_normal_cn_def)
  show ?thesis
    using 1 2 by (simp add: subclonal_then_clonal_cellularity subclonal_then_clonal_filtered)
qed

section \<open>Imputation\<close>

lemma those_eq_Some: "those xs = Some ys \<longleftrightarrow> xs = map Some ys"
proof (induction xs arbitrary: ys)
  case Nil
  then show ?case by auto
next
  case (Cons x xs)
  then show ?case by (cases x) (auto split: option.splits)
qed











lemma example_total_reads_run: "impute_missing_total_reads example_total_reads (1 / 2) = Inr [[1, 0], [1, 1]]"
  by (simp add: impute_missing_total_reads_def example_total_reads_def sample_means_def
      num_samples_def column_def gmean_def ma_log_def Let_def
      normalized_to_sample_def upt_rec)

lemma example_ref_reads_run: "impute_missing_ref_reads example_ref_reads [[1, 0], [1, 1]] = Inr [[1, 0], [0, 1]]"
  by (simp add: impute_missing_ref_reads_def example_ref_reads_def impute_ref_cell_def
     nth_exn_def py_int_def)

lemma rectangular_nth: "rectangular M \<Longrightarrow> v < length M \<Longrightarrow> length (M ! v) = num_samples M"
  by (simp add: rectangular_def list_all_length)

lemma map2_nth:
  "i < length xs \<Longrightarrow> i < length ys \<Longrightarrow> map2 f xs ys ! i = f (xs ! i) (ys ! i)"
  by simp

text \<open>What a successful run of the imputation computes, cell by cell.\<close>

lemma impute_total_cells:
  assumes rect: "rectangular M" and run: "impute_missing_total_reads M conf = Inr R"
  obtains means vmr where
    "length means = num_samples M" "length vmr = length M" "length R = length M"
    "\<And>s. s < num_samples M \<Longrightarrow> gmean (column M s) = Some (means ! s)"
    "\<And>v. v < length M \<Longrightarrow> gmean (normalized_to_sample M means ! v) = Some (vmr ! v)"
    "\<And>v s. v < length M \<Longrightarrow> s < num_samples M \<Longrightarrow>
        0 < (case M ! v ! s of None \<Rightarrow> vmr ! v * means ! s | Some x \<Rightarrow> x)"
    "\<And>v. v < length M \<Longrightarrow> length (R ! v) = num_samples M"
    "\<And>v s. v < length M \<Longrightarrow> s < num_samples M \<Longrightarrow>
        R ! v ! s = \<lfloor>case M ! v ! s of None \<Rightarrow> vmr ! v * means ! s * conf | Some x \<Rightarrow> x\<rfloor>"
proof -
  obtain means where m: "sample_means M = map Some means"
    using run by (auto simp: impute_missing_total_reads_def those_eq_Some split: option.splits)
  then have tm: "those (sample_means M) = Some means" by (simp add: those_eq_Some)
  obtain vmr where vm: "map gmean (normalized_to_sample M means) = map Some vmr"
    using run tm by (auto simp: impute_missing_total_reads_def those_eq_Some split: option.splits)
  then have tv: "those (map gmean (normalized_to_sample M means)) = Some vmr"
    by (simp add: those_eq_Some)
  define imputed where "imputed = map (\<lambda>vm. map (\<lambda>m. vm * m) means) vmr"
  define filled where "filled = map2 (\<lambda>row irow.
                              map2 (\<lambda>cell i. case cell of None \<Rightarrow> i | Some x \<Rightarrow> x) row irow)
                              M imputed"
  have pos: "\<not> list_ex (list_ex (\<lambda>x. x \<le> 0)) filled"
    and R: "R = map2 (\<lambda>row frow.
                 map2 (\<lambda>cell x. \<lfloor>case cell of None \<Rightarrow> x * conf | Some y \<Rightarrow> x\<rfloor>) row frow)
               M filled"
    using run tm tv
    by (auto simp: impute_missing_total_reads_def Let_def filled_def imputed_def split: if_splits)
  have lm: "length means = num_samples M"
    using arg_cong[OF m, of length] by (simp add: sample_means_def)
  have lv: "length vmr = length M"
    using arg_cong[OF vm, of length] by (simp add: normalized_to_sample_def)
  have li: "length imputed = length M" by (simp add: imputed_def lv)
  have lf: "length filled = length M" by (simp add: filled_def li)
  have lR: "length R = length M" by (simp add: R lf)
  have gs: "gmean (column M s) = Some (means ! s)" if "s < num_samples M" for s
  proof -
    have "sample_means M ! s = gmean (column M s)" using that by (simp add: sample_means_def)
    moreover have "map Some means ! s = Some (means ! s)" using that lm by simp
    ultimately show ?thesis using m by simp
  qed
  have gv: "gmean (normalized_to_sample M means ! v) = Some (vmr ! v)" if "v < length M" for v
  proof -
    have "map gmean (normalized_to_sample M means) ! v = gmean (normalized_to_sample M means ! v)"
      using that by (simp add: normalized_to_sample_def)
    moreover have "map Some vmr ! v = Some (vmr ! v)" using that lv by simp
    ultimately show ?thesis using vm by simp
  qed
  have irow: "imputed ! v = map (\<lambda>m. vmr ! v * m) means" if "v < length M" for v
    using that lv by (simp add: imputed_def)
  have frow: "filled ! v = map2 (\<lambda>cell i. case cell of None \<Rightarrow> i | Some x \<Rightarrow> x) (M ! v) (imputed ! v)"
    if "v < length M" for v
    using that li by (simp add: filled_def)
  have fcell: "filled ! v ! s = (case M ! v ! s of None \<Rightarrow> vmr ! v * means ! s | Some x \<Rightarrow> x)"
    and flen: "length (filled ! v) = num_samples M"
    if "v < length M" "s < num_samples M" for v s
    using that rectangular_nth[OF rect that(1)] lm by (simp_all add: frow irow)
  have p: "0 < (case M ! v ! s of None \<Rightarrow> vmr ! v * means ! s | Some x \<Rightarrow> x)"
    if "v < length M" "s < num_samples M" for v s
  proof -
    have "filled ! v \<in> set filled" using that lf by simp
    moreover have "filled ! v ! s \<in> set (filled ! v)" using that flen[OF that] by simp
    ultimately have "\<not> filled ! v ! s \<le> 0" using pos by (auto simp: list_ex_iff)
    then show ?thesis using fcell[OF that] by simp
  qed
  have Rrow: "R ! v = map2 (\<lambda>cell x. \<lfloor>case cell of None \<Rightarrow> x * conf | Some y \<Rightarrow> x\<rfloor>) (M ! v) (filled ! v)"
    if "v < length M" for v
    using that lf by (simp add: R)
  have Rlen: "length (R ! v) = num_samples M" if "v < length M" for v
    using that rectangular_nth[OF rect that] lm by (simp add: Rrow frow irow)
  have Rcell: "R ! v ! s = \<lfloor>case M ! v ! s of None \<Rightarrow> vmr ! v * means ! s * conf | Some x \<Rightarrow> x\<rfloor>"
    if "v < length M" "s < num_samples M" for v s
  proof -
    have "R ! v ! s = \<lfloor>case M ! v ! s of None \<Rightarrow> filled ! v ! s * conf | Some y \<Rightarrow> filled ! v ! s\<rfloor>"
      using that rectangular_nth[OF rect that(1)] flen[OF that] by (simp add: Rrow)
    then show ?thesis using fcell[OF that] by (cases "M ! v ! s") simp_all
  qed
  show ?thesis
    using that[OF lm lv lR gs gv p Rlen Rcell] by blast
qed






lemma impute_ref_length:
  assumes "impute_missing_ref_reads refs totals = Inr R"
  shows "length R = length refs"
  using collect_map_Inr(1)[OF assms[unfolded impute_missing_ref_reads_def]] by simp

lemma impute_ref_row:
  assumes "impute_missing_ref_reads refs totals = Inr R" "v < length refs"
  shows "collect (map (\<lambda>(s, cell). impute_ref_cell totals v s cell) (enumerate 0 (refs ! v)))
          = Inr (R ! v)"
proof -
  have "(case enumerate 0 refs ! v of (v, row) \<Rightarrow>
            collect (map (\<lambda>(s, cell). impute_ref_cell totals v s cell) (enumerate 0 row)))
          = Inr (R ! v)"
    using collect_map_Inr(2)[OF assms(1)[unfolded impute_missing_ref_reads_def], of v] assms(2)
    by simp
  then show ?thesis using assms(2) by (simp add: nth_enumerate_eq)
qed

lemma impute_ref_row_length:
  assumes "impute_missing_ref_reads refs totals = Inr R" "v < length refs"
  shows "length (R ! v) = length (refs ! v)"
  using collect_map_Inr(1)[OF impute_ref_row[OF assms]] by simp

lemma impute_ref_cells:
  assumes "impute_missing_ref_reads refs totals = Inr R" "v < length refs" "s < length (refs ! v)"
  shows "impute_ref_cell totals v s (refs ! v ! s) = Inr (R ! v ! s)"
  using collect_map_Inr(2)[OF impute_ref_row[OF assms(1,2)], of s] assms(3)
  by (simp add: nth_enumerate_eq)

lemma imputed_ref_value_aux:
  assumes "impute_missing_ref_reads refs totals = Inr R" "v < length refs" "s < length (refs ! v)"
  shows "(refs ! v ! s = None \<longrightarrow> R ! v ! s = totals ! v ! s \<and> v < length totals \<and> s < length (totals ! v))
         \<and> (\<forall>k. refs ! v ! s = Some (of_int k) \<longrightarrow> R ! v ! s = k)"
proof -
  note c = impute_ref_cells[OF assms]
  show ?thesis
  proof (cases "refs ! v ! s")
    case None
    then show ?thesis using c by (auto simp: impute_ref_cell_def nth_exn_def split: if_splits sum.splits)
  next
    case (Some x)
    then show ?thesis using c by (auto simp: impute_ref_cell_def py_int_def split: if_splits)
  qed
qed


lemma example_rectangular: "rectangular example_depths" "rectangular example_total_reads"
  by (simp_all add: rectangular_def num_samples_def example_depths_def example_total_reads_def)



text \<open>
  C5. When \<open>impute_missing_ref_reads\<close> returns, a cell whose ref\_reads was missing holds
  the total\_reads value of the same cell, and a cell that held a read count (an integer)
  holds that count.
\<close>

theorem missing_ref_reads_take_total:
  assumes "impute_missing_ref_reads refs totals = Inr R"
    and "v < length refs" and "s < length (refs ! v)"
  shows "(refs ! v ! s = None \<longrightarrow> R ! v ! s = totals ! v ! s)
         \<and> (\<forall>k. refs ! v ! s = Some (of_int k) \<longrightarrow> R ! v ! s = k)"
  using imputed_ref_value_aux[OF assms] by blast

theorem missing_ref_reads_take_total_witness:
  "impute_missing_ref_reads example_ref_reads [[1, 0], [1, 1]] = Inr [[1, 0], [0, 1]]
   \<and> example_ref_reads ! 0 ! 1 = None
   \<and> [[1, 0], [0, 1 :: int]] ! 0 ! 1 = [[1, 0], [1, 1 :: int]] ! 0 ! 1
   \<and> example_ref_reads ! 1 ! 0 = Some (of_int 0)
   \<and> [[1, 0], [0, 1 :: int]] ! 1 ! 0 = 0"
proof -
  have a: "0 < length example_ref_reads" "1 < length (example_ref_reads ! 0)"
    and b: "1 < length example_ref_reads" "0 < length (example_ref_reads ! 1)"
    by (simp_all add: example_ref_reads_def)
  from missing_ref_reads_take_total [OF example_ref_reads_run a]
       missing_ref_reads_take_total [OF example_ref_reads_run b]
  show ?thesis
    using example_ref_reads_run by (simp add: example_ref_reads_def)
qed

text \<open>
  C1, as stated, fails: with the total reads [[1, NaN], [1, 1]] the geometric means are all
  1 and the imputed value 1 passes the assertion; it is then scaled by the confidence, to 0
  with the confidence 0 and to 1/2 with the confidence 1/2, and floored to 0. The returned
  total\_reads cell is 0, not strictly positive.
\<close>

theorem imputed_total_reads_zero:
  "impute_missing_total_reads example_total_reads 0 = Inr [[1, 0], [1, 1]]
   \<and> impute_missing_total_reads example_total_reads (1 / 2) = Inr [[1, 0], [1, 1]]
   \<and> example_total_reads ! 0 ! 1 = None
   \<and> \<not> 0 < [[1, 0], [1, 1 :: int]] ! 0 ! 1"
proof -
  have "impute_missing_total_reads example_total_reads 0 = Inr [[1, 0], [1, 1]]"
    by (simp add: impute_missing_total_reads_def example_total_reads_def sample_means_def
        num_samples_def column_def gmean_def ma_log_def Let_def normalized_to_sample_def upt_rec)
  then show ?thesis using example_total_reads_run by (simp add: example_total_reads_def)
qed

text \<open>
  C1, amended. After imputation (\<open>impute_missing_total_reads\<close>, then
  \<open>impute_missing_ref_reads\<close>) with a confidence factor that is not negative, every cell of
  the returned total\_reads is a non-negative integer: an observed cell holds the floor of
  its observed value, which is strictly positive, and an imputed cell holds the floor of a
  positive value times the confidence, which may be 0. Every cell of the returned ref\_reads
  is a non-negative integer, the observed ref reads being non-negative.
\<close>

theorem imputed_counts_nonnegative:
  assumes conf: "0 \<le> conf" and rect: "rectangular M"
    and tot: "impute_missing_total_reads M conf = Inr T"
    and ref: "impute_missing_ref_reads refs T = Inr R"
    and obs: "list_all (list_all (\<lambda>cell. case cell of None \<Rightarrow> True | Some x \<Rightarrow> 0 \<le> x)) refs"
  shows "list_all (list_all (\<lambda>t. 0 \<le> t)) T \<and> list_all (list_all (\<lambda>r. 0 \<le> r)) R
         \<and> (\<forall>v s x. v < length M \<and> s < num_samples M \<and> M ! v ! s = Some x
                \<longrightarrow> 0 < x \<and> T ! v ! s = \<lfloor>x\<rfloor>)"
proof -
  obtain means vmr where
    lT: "length T = length M" and
    p: "\<And>v s. v < length M \<Longrightarrow> s < num_samples M \<Longrightarrow>
        0 < (case M ! v ! s of None \<Rightarrow> vmr ! v * means ! s | Some x \<Rightarrow> x)" and
    Tlen: "\<And>v. v < length M \<Longrightarrow> length (T ! v) = num_samples M" and
    Tcell: "\<And>v s. v < length M \<Longrightarrow> s < num_samples M \<Longrightarrow>
        T ! v ! s = \<lfloor>case M ! v ! s of None \<Rightarrow> vmr ! v * means ! s * conf | Some x \<Rightarrow> x\<rfloor>"
    using impute_total_cells[OF rect tot] by metis
  have T0: "0 \<le> T ! v ! s" if "v < length T" "s < length (T ! v)" for v s
  proof -
    have v: "v < length M" and s: "s < num_samples M" using that lT Tlen by auto
    show ?thesis
    proof (cases "M ! v ! s")
      case None
      then have "0 < vmr ! v * means ! s" using p[OF v s] by simp
      then have "0 \<le> vmr ! v * means ! s * conf" using conf by simp
      then show ?thesis using Tcell[OF v s] None by simp
    next
      case (Some x)
      then have "0 < x" using p[OF v s] by simp
      then show ?thesis using Tcell[OF v s] Some by simp
    qed
  qed
  have R0: "0 \<le> R ! v ! s" if "v < length R" "s < length (R ! v)" for v s
  proof -
    have v: "v < length refs" using that(1) impute_ref_length[OF ref] by simp
    have s: "s < length (refs ! v)" using that(2) impute_ref_row_length[OF ref v] by simp
    note c = imputed_ref_value_aux[OF ref v s]
    show ?thesis
    proof (cases "refs ! v ! s")
      case None
      then have "R ! v ! s = T ! v ! s" "v < length T" "s < length (T ! v)" using c by auto
      then show ?thesis using T0 by simp
    next
      case (Some x)
      have "refs ! v \<in> set refs" "refs ! v ! s \<in> set (refs ! v)" using v s by simp_all
      then have "0 \<le> x" using obs Some by (auto simp: list_all_iff split: option.splits)
      moreover have "R ! v ! s = py_int x"
        using impute_ref_cells[OF ref v s] Some by (simp add: impute_ref_cell_def)
      ultimately show ?thesis by (simp add: py_int_ge0)
    qed
  qed
  have 1: "list_all (list_all (\<lambda>t. 0 \<le> t)) T" using T0 by (simp add: list_all_length)
  have 2: "list_all (list_all (\<lambda>r. 0 \<le> r)) R" using R0 by (simp add: list_all_length)
  have 3: "\<forall>v s x. v < length M \<and> s < num_samples M \<and> M ! v ! s = Some x
                \<longrightarrow> 0 < x \<and> T ! v ! s = \<lfloor>x\<rfloor>"
  proof (intro allI impI)
    fix v s x assume a: "v < length M \<and> s < num_samples M \<and> M ! v ! s = Some x"
    then show "0 < x \<and> T ! v ! s = \<lfloor>x\<rfloor>" using p[of v s] Tcell[of v s] by simp
  qed
  show ?thesis using 1 2 3 by blast
qed

theorem imputed_counts_nonnegative_witness:
  "(0 :: real) \<le> 1 / 2 \<and> rectangular example_total_reads
   \<and> impute_missing_total_reads example_total_reads (1 / 2) = Inr [[1, 0], [1, 1]]
   \<and> impute_missing_ref_reads example_ref_reads [[1, 0], [1, 1]] = Inr [[1, 0], [0, 1]]
   \<and> list_all (list_all (\<lambda>t. 0 \<le> t)) [[1, 0], [1, 1 :: int]]
   \<and> list_all (list_all (\<lambda>r. 0 \<le> r)) [[1, 0], [0, 1 :: int]]
   \<and> example_total_reads ! 1 ! 1 = Some 1 \<and> [[1, 0], [1, 1 :: int]] ! 1 ! 1 = \<lfloor>1 :: real\<rfloor>"
proof -
  have c: "(0 :: real) \<le> 1 / 2" by simp
  have o: "list_all (list_all (\<lambda>cell. case cell of None \<Rightarrow> True | Some x \<Rightarrow> 0 \<le> x))
             example_ref_reads"
    by (simp add: example_ref_reads_def)
  from imputed_counts_nonnegative
         [OF c example_rectangular(2) example_total_reads_run example_ref_reads_run o]
  show ?thesis
    using example_rectangular(2) example_total_reads_run example_ref_reads_run
    by (simp add: example_total_reads_def)
qed

section \<open>Subsampling\<close>

lemma subsample_loop_closed:
  assumes "distinct xs"
  shows "subsample_loop n prio sub rem xs =
           (sub @ take (nat (n - int (length sub))) (filter prio xs),
            rem @ filter (\<lambda>i. i \<notin> set (take (nat (n - int (length sub))) (filter prio xs))) xs)"
  using assms
proof (induction xs arbitrary: sub rem)
  case Nil
  then show ?case by simp
next
  case (Cons i xs)
  have d: "distinct xs" and ni: "i \<notin> set xs" using Cons.prems by auto
  let ?k = "nat (n - int (length sub))"
  have notin: "i \<notin> set (take m (filter prio xs))" for m
    using ni by (meson in_set_takeD filter_is_subset subsetD)
  show ?case
  proof (cases "int (length sub) < n \<and> prio i")
    case True
    then obtain k' where k: "?k = Suc k'" by (cases ?k) auto
    have k': "nat (n - int (length (sub @ [i]))) = k'" using k by simp
    have "filter (\<lambda>j. j \<notin> set (i # take k' (filter prio xs))) xs
            = filter (\<lambda>j. j \<notin> set (take k' (filter prio xs))) xs"
      using ni by (intro filter_cong) auto
    then show ?thesis
      using True Cons.IH[OF d, of "sub @ [i]" rem] k k' by simp
  next
    case False
    show ?thesis
    proof (cases "prio i")
      case True
      then have "?k = 0" using False by simp
      then show ?thesis using False True Cons.IH[OF d, of sub "rem @ [i]"] by simp
    next
      case np: False
      then show ?thesis using False Cons.IH[OF d, of sub "rem @ [i]"] notin by simp
    qed
  qed
qed

lemma subsample_loop_spec:
  assumes "distinct xs"
  shows "(let (sub0, rem) = subsample_loop (int k) prio [] [] xs;
              needed = nat (int k - int (length sub0))
          in (sub0 @ take needed rem, drop needed rem)) = subsample_spec k prio xs"
    and "int (length (fst (subsample_loop (int k) prio [] [] xs))) \<le> int k"
proof -
  have n: "nat (int k - int (length (take k (filter prio xs))))
             = k - length (take k (filter prio xs))"
    by simp
  show "(let (sub0, rem) = subsample_loop (int k) prio [] [] xs;
              needed = nat (int k - int (length sub0))
          in (sub0 @ take needed rem, drop needed rem)) = subsample_spec k prio xs"
    unfolding subsample_loop_closed[OF assms] subsample_spec_def Let_def
    by (simp only: prod.case list.size append_Nil of_nat_0 diff_zero nat_int n)
  show "int (length (fst (subsample_loop (int k) prio [] [] xs))) \<le> int k"
    unfolding subsample_loop_closed[OF assms] by simp
qed

lemma sort_by_variant_key_props:
  assumes "sort_by_variant_key f xs = Inr ys"
  shows "mset ys = mset xs"
    and "\<exists>ks. map (\<lambda>x. variant_key (f x)) ys = map Inr ks \<and> sorted ks"
proof -
  obtain keys where c: "collect (map (\<lambda>x. variant_key (f x)) xs) = Inr keys"
    and ys: "ys = map snd (sort_key fst (zip keys xs))"
    using assms by (auto simp: sort_by_variant_key_def split: sum.splits)
  have m: "map (\<lambda>x. variant_key (f x)) xs = map Inr keys" using c by (rule collect_Inr)
  have "length (map (\<lambda>x. variant_key (f x)) xs) = length (map Inr keys :: (exn + int \<times> int) list)"
    by (simp only: m)
  then have l: "length keys = length xs" by simp
  have "mset ys = mset (map snd (zip keys xs))"
    unfolding ys by (simp only: mset_map mset_sort)
  then show "mset ys = mset xs" using l by simp
  have pair: "variant_key (f x) = Inr k" if kx: "(k, x) \<in> set (zip keys xs)" for k x
  proof -
    obtain i where i: "i < length xs" "keys ! i = k" "xs ! i = x"
      using kx l by (auto simp: set_zip)
    have "map (\<lambda>x. variant_key (f x)) xs ! i = map Inr keys ! i" using m by simp
    then show ?thesis using i l by simp
  qed
  let ?ks = "map fst (sort_key fst (zip keys xs))"
  have "sorted ?ks" by (rule sorted_sort_key)
  moreover have "map (\<lambda>x. variant_key (f x)) ys = map Inr ?ks"
    unfolding ys using pair by (auto simp: comp_def)
  ultimately show "\<exists>ks. map (\<lambda>x. variant_key (f x)) ys = map Inr ks \<and> sorted ks" by blast
qed

lemma length_filter_notin:
  assumes "distinct xs" "set ys \<subseteq> set xs" "distinct ys"
  shows "length (filter (\<lambda>i. i \<notin> set ys) xs) = length xs - length ys"
proof -
  let ?f = "filter (\<lambda>i. i \<notin> set ys) xs"
  have "distinct ?f" using assms(1) by (rule distinct_filter)
  then have 1: "card (set ?f) = length ?f" by (rule distinct_card)
  have 2: "set ?f = set xs - set ys" by auto
  have 3: "card (set xs - set ys) = card (set xs) - card (set ys)"
    using assms(2) by (intro card_Diff_subset) auto
  have 4: "card (set xs) = length xs" "card (set ys) = length ys"
    using assms(1,3) by (simp_all only: distinct_card)
  show ?thesis using 1 2 3 4 by metis
qed

lemma mset_filter_in:
  assumes "distinct xs" "set ys \<subseteq> set xs" "distinct ys"
  shows "mset ys + mset (filter (\<lambda>i. i \<notin> set ys) xs) = mset xs"
proof -
  let ?f = "filter (\<lambda>i. i \<in> set ys) xs"
  have s: "set ?f = set ys" using assms(2) by auto
  have d: "distinct ?f" using assms(1) by (rule distinct_filter)
  have e: "mset ?f = mset ys"
    using s by (simp only: set_eq_iff_mset_eq_distinct[OF d assms(3)])
  have p: "mset (filter (\<lambda>i. i \<in> set ys) zs) + mset (filter (\<lambda>i. i \<notin> set ys) zs) = mset zs" for zs
    by (induction zs) simp_all
  show ?thesis using p[of xs] by (simp only: e)
qed

lemma subsample_spec_props:
  assumes "distinct xs"
  shows "length (fst (subsample_spec n prio xs)) = min n (length xs)"
    and "mset (fst (subsample_spec n prio xs)) + mset (snd (subsample_spec n prio xs)) = mset xs"
    and "set (take n (filter prio xs)) \<subseteq> set (fst (subsample_spec n prio xs))"
proof -
  let ?chosen = "take n (filter prio xs)"
  let ?others = "filter (\<lambda>i. i \<notin> set ?chosen) xs"
  have sub: "set ?chosen \<subseteq> set xs" by (meson in_set_takeD filter_is_subset subsetD subsetI)
  have dc: "distinct ?chosen" using assms by simp
  have lo: "length ?others = length xs - length ?chosen"
    using assms sub dc by (rule length_filter_notin)
  have lc: "length ?chosen \<le> length xs"
  proof -
    have "length ?chosen \<le> length (filter prio xs)" by simp
    also have "\<dots> \<le> length xs" by (rule length_filter_le)
    finally show ?thesis .
  qed
  show "length (fst (subsample_spec n prio xs)) = min n (length xs)"
  proof -
    have "length (fst (subsample_spec n prio xs))
            = length ?chosen + min (length ?others) (n - length ?chosen)"
      by (simp only: subsample_spec_def Let_def fst_conv length_append length_take)
    moreover have "length ?chosen = min (length (filter prio xs)) n" by (rule length_take)
    moreover have "length (filter prio xs) \<le> length xs" by (rule length_filter_le)
    ultimately show ?thesis using lo lc by linarith
  qed
  have "mset ?chosen + mset ?others = mset xs" using assms sub dc by (rule mset_filter_in)
  moreover have "mset (take (n - length ?chosen) ?others) + mset (drop (n - length ?chosen) ?others)
                   = mset ?others"
    by (simp only: mset_append[symmetric] append_take_drop_id)
  ultimately show "mset (fst (subsample_spec n prio xs)) + mset (snd (subsample_spec n prio xs)) = mset xs"
    by (simp only: subsample_spec_def Let_def fst_conv snd_conv mset_append add.assoc)
  show "set (take n (filter prio xs)) \<subseteq> set (fst (subsample_spec n prio xs))"
    by (simp add: subsample_spec_def Let_def)
qed


lemma example_group_idxs: "variant_idxs example_group = [0, 1, 2, 3]"
  by (simp add: example_group_def add_variants_def upt_rec)

lemma example_group_variants:
  "g_variants example_group =
     [\<lparr> CHROM = ''1'', POS = 10 \<rparr>, \<lparr> CHROM = ''1'', POS = 20 \<rparr>,
      \<lparr> CHROM = ''2'', POS = 5 \<rparr>, \<lparr> CHROM = ''10'', POS = 7 \<rparr>]"
  by (simp add: example_group_def add_variants_def)

lemma example_keys:
  "variant_key \<lparr> CHROM = ''1'', POS = 10 \<rparr> = Inr (1, 10)"
  "variant_key \<lparr> CHROM = ''1'', POS = 20 \<rparr> = Inr (1, 20)"
  "variant_key \<lparr> CHROM = ''2'', POS = 5 \<rparr> = Inr (2, 5)"
  "variant_key \<lparr> CHROM = ''10'', POS = 7 \<rparr> = Inr (10, 7)"
  by (simp_all add: variant_key_def int_of_string_def strip_def is_space_def
      int_of_digits_def is_digit_def digits_value_def)

lemma example_subsample_run:
  "subsample_indices example_group rev (Some (int 3)) {(''2'', 5)} = Inr ([1, 2, 3], [0])"
  by (simp add: subsample_indices_def example_group_idxs example_group_variants
      get_elements_at_indices_def nth_exn_def sort_by_variant_key_def example_keys
      less_eq_prod_def)

lemma example_subsample_spec:
  "subsample_spec 3
     (\<lambda>idx. (CHROM (g_variants example_group ! idx), POS (g_variants example_group ! idx))
               \<in> {(''2'', 5)})
     (rev [0, 1, 2, 3]) = ([2, 3, 1], [0])"
  by (simp add: subsample_spec_def example_group_variants Let_def)

text \<open>
  C6. With a sample size n given, the indices are shuffled first; the subsample holds the
  first n priority variants of the shuffled order and is backfilled from the other shuffled
  variants up to n; the leftover variants are the nonsubsampled group; and each of the two
  groups is returned sorted by the key (chromosome, position). Together the two groups hold
  every retained variant once, and the subsample has n members when there are that many.
  The shuffle of the seeded generator is any function that permutes the list.
\<close>

theorem subsampling_priority_then_backfill:
  assumes perm: "mset (shuffle (variant_idxs g)) = mset (variant_idxs g)"
    and dist: "distinct (variant_idxs g)"
    and run: "subsample_indices g shuffle (Some (int n)) priority_ssms
                = Inr (subsampled, nonsubsampled)"
  shows "mset subsampled
           = mset (fst (subsample_spec n
                     (\<lambda>idx. (CHROM (g_variants g ! idx), POS (g_variants g ! idx)) \<in> priority_ssms)
                     (shuffle (variant_idxs g))))
       \<and> mset nonsubsampled
           = mset (snd (subsample_spec n
                     (\<lambda>idx. (CHROM (g_variants g ! idx), POS (g_variants g ! idx)) \<in> priority_ssms)
                     (shuffle (variant_idxs g))))
       \<and> (\<exists>ks. map (\<lambda>idx. variant_key (g_variants g ! idx)) subsampled = map Inr ks \<and> sorted ks)
       \<and> (\<exists>ks. map (\<lambda>idx. variant_key (g_variants g ! idx)) nonsubsampled = map Inr ks
                \<and> sorted ks)
       \<and> length subsampled = min n (length (variant_idxs g))
       \<and> mset subsampled + mset nonsubsampled = mset (variant_idxs g)"
proof -
  let ?sh = "shuffle (variant_idxs g)"
  let ?prio = "\<lambda>idx. (CHROM (g_variants g ! idx), POS (g_variants g ! idx)) \<in> priority_ssms"
  have dsh: "distinct ?sh"
    using dist perm by (metis mset_eq_imp_distinct_iff)
  have lsh: "length ?sh = length (variant_idxs g)"
    using perm by (rule mset_eq_length)
  obtain sub0 rem where loop: "subsample_loop (int n) ?prio [] [] ?sh = (sub0, rem)"
    by (cases "subsample_loop (int n) ?prio [] [] ?sh")
  have spec: "(sub0 @ take (nat (int n - int (length sub0))) rem,
               drop (nat (int n - int (length sub0))) rem) = subsample_spec n ?prio ?sh"
    using subsample_loop_spec(1)[OF dsh, of n ?prio] loop by (simp add: Let_def)
  have ok: "int (length sub0) \<le> int n"
    using subsample_loop_spec(2)[OF dsh, of n ?prio] loop by simp
  have s1: "sort_by_variant_key (\<lambda>idx. g_variants g ! idx) (fst (subsample_spec n ?prio ?sh))
              = Inr subsampled"
    and s2: "sort_by_variant_key (\<lambda>idx. g_variants g ! idx) (snd (subsample_spec n ?prio ?sh))
              = Inr nonsubsampled"
    using run loop ok unfolding spec[symmetric]
    by (auto simp: subsample_indices_def Let_def split: sum.splits)
  note p1 = sort_by_variant_key_props[OF s1] and p2 = sort_by_variant_key_props[OF s2]
  note q = subsample_spec_props[OF dsh, of n ?prio]
  have len: "length subsampled = min n (length (variant_idxs g))"
    using mset_eq_length[OF p1(1)] q(1) lsh by simp
  have all: "mset subsampled + mset nonsubsampled = mset (variant_idxs g)"
    using p1(1) p2(1) q(2) perm by simp
  show ?thesis using p1 p2 len all by blast
qed


theorem subsampling_priority_then_backfill_witness:
  "mset (rev (variant_idxs example_group)) = mset (variant_idxs example_group)
   \<and> distinct (variant_idxs example_group)
   \<and> subsample_indices example_group rev (Some (int 3)) {(''2'', 5)} = Inr ([1, 2, 3], [0])
   \<and> subsample_spec 3
        (\<lambda>idx. (CHROM (g_variants example_group ! idx), POS (g_variants example_group ! idx))
                  \<in> {(''2'', 5)})
        (rev (variant_idxs example_group)) = ([2, 3, 1], [0])
   \<and> mset [1, 2, 3 :: nat] = mset [2, 3, 1]
   \<and> length [1, 2, 3 :: nat] = min 3 (length (variant_idxs example_group))"
proof -
  have p: "mset (rev (variant_idxs example_group)) = mset (variant_idxs example_group)"
    by simp
  have d: "distinct (variant_idxs example_group)"
    by (simp add: example_group_idxs)
  from subsampling_priority_then_backfill [OF p d example_subsample_run]
  show ?thesis
    using p d example_subsample_run example_subsample_spec
    by (simp add: example_group_idxs)
qed

section \<open>Caller adapters and parse\_variants\<close>

lemma example_chroms_normalized: "normalize_chrom ''chr1'' = ''1''" "normalize_chrom ''chr2'' = ''2''"
  by (simp_all add: normalize_chrom_def lower_def lower_char_def)


lemma strelka_zero_depth_counts:
  "calc_read_counts (example_parser Strelka) (zero_depth_record \<lparr> r_CHROM := ''1'' \<rparr>) = Inr (0, 0)"
  by (simp add: calc_read_counts_def example_parser_def strelka_calc_read_counts_def bind_exn_def
      py_index_def zero_depth_record_def tumor_call_def get_tumor_index_def tumor_column_def
      call_int_def call_field_def to_int_def call_int_at_def val_index_def)

lemma strelka_covered_counts:
  "calc_read_counts (example_parser Strelka) (covered_record \<lparr> r_CHROM := ''2'' \<rparr>) = Inr (30, 40)"
  by (simp add: calc_read_counts_def example_parser_def strelka_calc_read_counts_def bind_exn_def
      py_index_def covered_record_def tumor_call_def get_tumor_index_def tumor_column_def
      call_int_def call_field_def to_int_def call_int_at_def val_index_def)

lemma pcawg_zero_depth_unavailable:
  "calc_read_counts (example_parser PcawgConsensus) (zero_depth_record \<lparr> r_CHROM := ''1'' \<rparr>) = Inl ReadCountsUnavailableError"
  by (simp add: calc_read_counts_def example_parser_def pcawg_consensus_calc_read_counts_def bind_exn_def
      py_index_def zero_depth_record_def info_field_def val_len_def to_int_def val_index_def)

lemma pcawg_covered_counts:
  "calc_read_counts (example_parser PcawgConsensus) (covered_record \<lparr> r_CHROM := ''2'' \<rparr>) = Inr (30, 40)"
  by (simp add: calc_read_counts_def example_parser_def pcawg_consensus_calc_read_counts_def bind_exn_def
      py_index_def covered_record_def info_field_def val_len_def to_int_def val_index_def)

lemma example_chroms_good: "is_good_chrom ''1''" "is_good_chrom ''2''"
  by code_simp+

lemma example_store_parsed:
  "parse_vcf example_store ''a.vcf''
     = Inr [covered_record \<lparr> r_CHROM := ''2'' \<rparr>, zero_depth_record \<lparr> r_CHROM := ''1'' \<rparr>]"
  by (simp add: parse_vcf_def example_store_def example_chroms_normalized covered_record_def zero_depth_record_def)

lemma strelka_examples_pass:
  "does_variant_pass_filters (example_parser Strelka) (covered_record \<lparr> r_CHROM := ''2'' \<rparr>) = Inr True"
  "does_variant_pass_filters (example_parser Strelka) (zero_depth_record \<lparr> r_CHROM := ''1'' \<rparr>) = Inr True"
  by (simp_all add: does_variant_pass_filters_def example_parser_def no_filter_def covered_record_def
        zero_depth_record_def)

lemma example_chrom_update:
  "r_CHROM (covered_record \<lparr> r_CHROM := ''2'' \<rparr>) = ''2''"
  "r_CHROM (zero_depth_record \<lparr> r_CHROM := ''1'' \<rparr>) = ''1''"
  by simp_all

lemma strelka_list_variants:
  "list_variants (example_parser Strelka) example_store
     = Inr [(covered_record \<lparr> r_CHROM := ''2'' \<rparr>, 30, 40),
            (zero_depth_record \<lparr> r_CHROM := ''1'' \<rparr>, 0, 0)]"
proof -
  have f: "vcf_filename (example_parser Strelka) = ''a.vcf''" by (simp add: example_parser_def)
  show ?thesis
    by (simp only: list_variants_def f example_store_parsed bind_exn_def sum.case filter_records.simps
          example_chrom_update example_chroms_good strelka_examples_pass not_True_eq_False if_False not_False_eq_True if_True
          read_counts_loop.simps strelka_covered_counts strelka_zero_depth_counts prod.case)
qed

lemma pcawg_examples_pass:
  "does_variant_pass_filters (example_parser PcawgConsensus) (covered_record \<lparr> r_CHROM := ''2'' \<rparr>) = Inr True"
  "does_variant_pass_filters (example_parser PcawgConsensus) (zero_depth_record \<lparr> r_CHROM := ''1'' \<rparr>) = Inr True"
  by (simp_all add: does_variant_pass_filters_def example_parser_def no_filter_def covered_record_def
        zero_depth_record_def)

lemma pcawg_list_variants:
  "list_variants (example_parser PcawgConsensus) example_store
     = Inr [(covered_record \<lparr> r_CHROM := ''2'' \<rparr>, 30, 40)]"
proof -
  have f: "vcf_filename (example_parser PcawgConsensus) = ''a.vcf''" by (simp add: example_parser_def)
  show ?thesis
    by (simp only: list_variants_def f example_store_parsed bind_exn_def sum.case filter_records.simps
          example_chrom_update example_chroms_good pcawg_examples_pass not_True_eq_False if_False not_False_eq_True if_True
          read_counts_loop.simps pcawg_covered_counts pcawg_zero_depth_unavailable prod.case refl)
qed

lemma mutect_example_passes:
  "does_variant_pass_filters (example_parser MutectPcawg) (covered_record \<lparr> r_CHROM := ''2'' \<rparr>) = Inr True"
  by (simp_all add: does_variant_pass_filters_def example_parser_def no_filter_def covered_record_def)

lemma mutect_field_missing:
  "calc_read_counts (example_parser MutectPcawg) (covered_record \<lparr> r_CHROM := ''2'' \<rparr>) = Inl AttributeError"
  by (simp add: calc_read_counts_def example_parser_def mutect_pcawg_calc_read_counts_def bind_exn_def
      py_index_def covered_record_def tumor_call_def get_tumor_index_def tumor_column_def
      call_int_def call_field_def)

lemma mutect_list_variants:
  "list_variants (example_parser MutectPcawg) example_store = Inl AttributeError"
proof -
  have f: "vcf_filename (example_parser MutectPcawg) = ''a.vcf''" by (simp add: example_parser_def)
  show ?thesis
    by (simp only: list_variants_def f example_store_parsed bind_exn_def sum.case filter_records.simps
          example_chrom_update example_chroms_good mutect_example_passes strelka_examples_pass not_True_eq_False if_False not_False_eq_True if_True
          read_counts_loop.simps mutect_field_missing prod.case)
       (simp add: does_variant_pass_filters_def example_parser_def no_filter_def zero_depth_record_def
          bind_exn_def mutect_field_missing[unfolded example_parser_def])
qed

lemma make_strelka_parser: "make_parser (example_args fs) ''strelka'' ''a.vcf'' = Inr (example_parser Strelka)"
  by (simp add: make_parser_def kind_of_type_def example_parser_def example_args_def)

lemma make_pcawg_parser: "make_parser (example_args fs) ''pcawg_consensus'' ''a.vcf'' = Inr (example_parser PcawgConsensus)"
  by (simp add: make_parser_def kind_of_type_def example_parser_def example_args_def)

lemma example_split_type:
  "split_type ''strelka=a.vcf'' = Inr (''strelka'', ''a.vcf'')"
  "split_type ''pcawg_consensus=a.vcf'' = Inr (''pcawg_consensus'', ''a.vcf'')"
  "split_type ''bogus=b.vcf'' = Inr (''bogus'', ''b.vcf'')"
  by (simp_all add: split_type_def)

lemma example_record_keys:
  "variant_key \<lparr> CHROM = ''1'', POS = 100 \<rparr> = Inr (1, 100)"
  "variant_key \<lparr> CHROM = ''2'', POS = 200 \<rparr> = Inr (2, 200)"
  by (simp_all add: variant_key_def int_of_string_def strip_def is_space_def
      int_of_digits_def is_digit_def digits_value_def)

lemma strelka_parse_files:
  "parse_files (example_args [''strelka=a.vcf'']) example_store [''strelka=a.vcf'']
    = ([''a.vcf''], Inr [[(covered_record \<lparr> r_CHROM := ''2'' \<rparr>, 30, 40),
            (zero_depth_record \<lparr> r_CHROM := ''1'' \<rparr>, 0, 0)]])"
  by (simp add: example_split_type make_strelka_parser strelka_list_variants)

lemma strelka_build_matrices:
  "build_matrices (example_args [''strelka=a.vcf''])
      [[(covered_record \<lparr> r_CHROM := ''2'' \<rparr>, 30, 40),
        (zero_depth_record \<lparr> r_CHROM := ''1'' \<rparr>, 0, 0)]] = Inl AssertionError"
  by (simp add: build_matrices_def example_args_def variant_id_of_def covered_record_def
      zero_depth_record_def sort_by_variant_key_def example_record_keys bind_exn_def less_eq_prod_def
      set_cell_def impute_missing_total_reads_def sample_means_def num_samples_def column_def
      gmean_def ma_log_def normalized_to_sample_def)

lemma strelka_parse_variants:
  "parse_variants (example_args [''strelka=a.vcf'']) example_store = ([''a.vcf''], Inl AssertionError)"
proof -
  have v: "vcf_files (example_args [''strelka=a.vcf'']) = [''strelka=a.vcf'']" by (simp add: example_args_def)
  show ?thesis by (simp only: parse_variants_def v strelka_parse_files strelka_build_matrices prod.case sum.case)
qed

lemma pcawg_parse_variants:
  "parse_variants (example_args [''pcawg_consensus=a.vcf'']) example_store
     = ([''a.vcf''], Inr ([\<lparr> CHROM = ''2'', POS = 200 \<rparr>], [[30]], [[40]]))"
proof -
  have v: "vcf_files (example_args [''pcawg_consensus=a.vcf'']) = [''pcawg_consensus=a.vcf'']" by (simp add: example_args_def)
  have pf: "parse_files (example_args [''pcawg_consensus=a.vcf'']) example_store [''pcawg_consensus=a.vcf'']
    = ([''a.vcf''], Inr [[(covered_record \<lparr> r_CHROM := ''2'' \<rparr>, 30, 40)]])"
    by (simp add: example_split_type make_pcawg_parser pcawg_list_variants)
  have bm: "build_matrices (example_args [''pcawg_consensus=a.vcf''])
      [[(covered_record \<lparr> r_CHROM := ''2'' \<rparr>, 30, 40)]] = Inr ([\<lparr> CHROM = ''2'', POS = 200 \<rparr>], [[30]], [[40]])"
    by (simp add: build_matrices_def example_args_def variant_id_of_def covered_record_def
      sort_by_variant_key_def example_record_keys bind_exn_def
      set_cell_def impute_missing_total_reads_def sample_means_def num_samples_def column_def
      gmean_def ma_log_def normalized_to_sample_def impute_missing_ref_reads_def impute_ref_cell_def
      py_int_def)
  show ?thesis by (simp only: parse_variants_def v pf bm prod.case sum.case)
qed


text \<open>
  C7. Only the adapter of pcawg\_consensus raises \<open>ReadCountsUnavailableError\<close>. The file
  a.vcf holds a record with 40 reads and a record of chromosome 1, position 100, whose
  tumor column has DP = 0 and AU = [0, 0]. Read as strelka, the second record is not
  skipped: \<open>list_variants\<close> returns it with the counts (0, 0), the zero enters the matrix
  of total reads, and \<open>parse_variants\<close> ends in the \<open>AssertionError\<close> of the imputation.
  Read as pcawg\_consensus (t\_alt\_count = t\_ref\_count = 0), the same record is skipped and
  \<open>parse_variants\<close> returns. Read as mutect\_pcawg, whose fields ref\_count and alt\_count
  the records lack, \<open>list_variants\<close> ends in an \<open>AttributeError\<close>.
\<close>

theorem strelka_zero_depth_record_kept:
  "list_variants (example_parser Strelka) example_store
     = Inr [(covered_record \<lparr> r_CHROM := ''2'' \<rparr>, 30, 40),
            (zero_depth_record \<lparr> r_CHROM := ''1'' \<rparr>, 0, 0)]
   \<and> parse_variants (example_args [''strelka=a.vcf'']) example_store
       = ([''a.vcf''], Inl AssertionError)
   \<and> list_variants (example_parser PcawgConsensus) example_store
       = Inr [(covered_record \<lparr> r_CHROM := ''2'' \<rparr>, 30, 40)]
   \<and> parse_variants (example_args [''pcawg_consensus=a.vcf'']) example_store
       = ([''a.vcf''], Inr ([\<lparr> CHROM = ''2'', POS = 200 \<rparr>], [[30]], [[40]]))
   \<and> list_variants (example_parser MutectPcawg) example_store = Inl AttributeError"
  using strelka_list_variants strelka_parse_variants pcawg_list_variants pcawg_parse_variants
    mutect_list_variants
  by (simp only: simp_thms)

lemma split_type_file: "split_type f = Inr (ty, fn) \<Longrightarrow> fn = file_of f"
  by (auto simp: split_type_def file_of_def split: if_splits)

lemma parse_files_unknown_type:
  assumes "i < length fs" "split_type (fs ! i) = Inr (ty, fn)" "kind_of_type ty = None"
  shows "(\<exists>e. snd (parse_files a store fs) = Inl e)
         \<and> (\<exists>k \<le> i. fst (parse_files a store fs) = map file_of (take k fs))"
  using assms
proof (induction fs arbitrary: i)
  case Nil
  then show ?case by simp
next
  case (Cons f fs)
  show ?case
  proof (cases "split_type f")
    case (Inl e)
    then show ?thesis by (auto intro: exI[of _ 0])
  next
    case (Inr p)
    obtain ty' fn' where p: "p = (ty', fn')" by (cases p)
    have fn': "fn' = file_of f" using Inr p by (simp add: split_type_file)
    show ?thesis
    proof (cases "make_parser a ty' fn'")
      case (Inl e)
      then show ?thesis using Inr p by (auto intro: exI[of _ 0])
    next
      case mk: (Inr vp)
      then have known: "kind_of_type ty' \<noteq> None"
        by (auto simp: make_parser_def split: option.splits)
      then obtain j where i: "i = Suc j"
        using Cons.prems Inr p by (cases i) auto
      show ?thesis
      proof (cases "list_variants vp store")
        case (Inl e)
        have "fst (parse_files a store (f # fs)) = map file_of (take 1 (f # fs))"
          using Inr p mk Inl fn' by simp
        moreover have "snd (parse_files a store (f # fs)) = Inl e"
          using Inr p mk Inl by simp
        ultimately show ?thesis using i by (intro conjI exI[of _ e] exI[of _ 1]) auto
      next
        case lv: (Inr parsed)
        have "(\<exists>e. snd (parse_files a store fs) = Inl e)
              \<and> (\<exists>k \<le> j. fst (parse_files a store fs) = map file_of (take k fs))"
          using Cons.prems i by (intro Cons.IH[of j]) auto
        then obtain e k where e: "snd (parse_files a store fs) = Inl e"
          and k: "k \<le> j" "fst (parse_files a store fs) = map file_of (take k fs)"
          by blast
        have pf: "parse_files a store fs = (map file_of (take k fs), Inl e)"
          using e k(2) by (cases "parse_files a store fs") simp
        have "parse_files a store (f # fs) = (file_of f # map file_of (take k fs), Inl e)"
          using Inr p mk lv pf fn' by simp
        then show ?thesis using k(1) i
          by (intro conjI exI[of _ e] exI[of _ "Suc k"]) auto
      qed
    qed
  qed
qed

lemma bogus_first_parse_variants:
  "parse_variants (example_args [''bogus=b.vcf'', ''strelka=a.vcf'']) example_store
     = ([], Inl (Exception ''Unknowon variant type: bogus''))"
  by (simp add: parse_variants_def example_args_def example_split_type make_parser_def kind_of_type_def)

lemma bogus_second_parse_variants:
  "parse_variants (example_args [''pcawg_consensus=a.vcf'', ''bogus=b.vcf'']) example_store
     = ([''a.vcf''], Inl (Exception ''Unknowon variant type: bogus''))"
proof -
  have v: "vcf_files (example_args [''pcawg_consensus=a.vcf'', ''bogus=b.vcf''])
            = [''pcawg_consensus=a.vcf'', ''bogus=b.vcf'']"
    by (simp add: example_args_def)
  have m: "make_parser (example_args [''pcawg_consensus=a.vcf'', ''bogus=b.vcf'']) ''bogus'' ''b.vcf''
            = Inl (Exception ''Unknowon variant type: bogus'')"
    by (simp add: make_parser_def kind_of_type_def)
  have pf: "parse_files (example_args [''pcawg_consensus=a.vcf'', ''bogus=b.vcf'']) example_store
              [''pcawg_consensus=a.vcf'', ''bogus=b.vcf'']
            = ([''a.vcf''], Inl (Exception ''Unknowon variant type: bogus''))"
    by (simp only: parse_files.simps example_split_type make_pcawg_parser pcawg_list_variants m sum.case prod.case)
  show ?thesis by (simp only: parse_variants_def v pf prod.case sum.case)
qed


text \<open>
  C8, as stated, fails: with the entries pcawg\_consensus=a.vcf and bogus=b.vcf the file
  a.vcf is opened, filtered and its read counts extracted before the unknown keyword of the
  second entry raises.
\<close>

theorem unknown_type_after_first_file:
  "parse_variants (example_args [''pcawg_consensus=a.vcf'', ''bogus=b.vcf'']) example_store
     = ([''a.vcf''], Inl (Exception ''Unknowon variant type: bogus''))
   \<and> list_variants (example_parser PcawgConsensus) example_store
       = Inr [(covered_record \<lparr> r_CHROM := ''2'' \<rparr>, 30, 40)]"
  using bogus_second_parse_variants pcawg_list_variants by (simp only: simp_thms)

text \<open>
  C8, amended. When an entry of the list of VCF files has an unknown caller-type keyword,
  \<open>parse_variants\<close> ends in an exception, so that no matrix is built and nothing is
  written; the files opened before that are files of entries listed before the unknown
  keyword, in order, and none when the unknown keyword comes first.
\<close>

theorem unknown_caller_type_aborts:
  assumes "i < length (vcf_files a)"
    and "split_type (vcf_files a ! i) = Inr (ty, fn)"
    and "kind_of_type ty = None"
  shows "(\<exists>e. snd (parse_variants a store) = Inl e)
         \<and> (\<exists>k \<le> i. fst (parse_variants a store) = map file_of (take k (vcf_files a)))"
proof -
  obtain e k where e: "snd (parse_files a store (vcf_files a)) = Inl e"
    and k: "k \<le> i" "fst (parse_files a store (vcf_files a)) = map file_of (take k (vcf_files a))"
    using parse_files_unknown_type[OF assms, of a store] by blast
  have "parse_files a store (vcf_files a) = (map file_of (take k (vcf_files a)), Inl e)"
    using e k(2) by (cases "parse_files a store (vcf_files a)") simp
  then have "parse_variants a store = (map file_of (take k (vcf_files a)), Inl e)"
    by (simp add: parse_variants_def)
  then show ?thesis using k(1) by auto
qed

theorem unknown_caller_type_aborts_witness:
  "0 < length (vcf_files (example_args [''bogus=b.vcf'', ''strelka=a.vcf'']))
   \<and> split_type (vcf_files (example_args [''bogus=b.vcf'', ''strelka=a.vcf'']) ! 0)
       = Inr (''bogus'', ''b.vcf'')
   \<and> kind_of_type ''bogus'' = None
   \<and> parse_variants (example_args [''bogus=b.vcf'', ''strelka=a.vcf'']) example_store
       = ([], Inl (Exception ''Unknowon variant type: bogus''))"
proof -
  have 1: "0 < length (vcf_files (example_args [''bogus=b.vcf'', ''strelka=a.vcf'']))"
    by (simp add: example_args_def)
  have 2: "split_type (vcf_files (example_args [''bogus=b.vcf'', ''strelka=a.vcf'']) ! 0)
       = Inr (''bogus'', ''b.vcf'')"
    by (simp add: example_args_def example_split_type)
  have 3: "kind_of_type ''bogus'' = None"
    by (simp add: kind_of_type_def)
  from unknown_caller_type_aborts [OF 1 2 3, of example_store]
  show ?thesis using 1 2 3 bogus_first_parse_variants by simp
qed

end
